theory Spec2Isabelle
  imports Main "HOL-Library.AList"
begin

section \<open>Data model of the network controller\<close>

text \<open>
  The controller is the TypeScript class \<open>NetworkController\<close> of
  \<open>src/ui/pages/home/home.container.js\<close> (second document of that file). Its
  stores, its runtime fields and what it does to the outside world (events published on
  the messenger, JSON-RPC requests issued, MetaMetrics events tracked) are the fields of
  one record that every method takes and returns. A method that throws returns the error
  together with the state it had reached when it threw.
\<close>

datatype NetworkStatus = Unknown | Available | Blocked | Unavailable

datatype NetworkControllerEventType =
  NetworkDidChange | NetworkWillChange | InfuraIsBlocked | InfuraIsUnblocked

record RpcPrefs =
  blockExplorerUrl :: "string option"

text \<open>
  \<open>ProviderConfiguration\<close>. An optional property is an \<open>option\<close>; \<open>chainId\<close> is
  one too because \<open>lookupNetwork\<close> tests it for absence. \<open>pc_id\<close> is the \<open>id\<close>
  property that \<open>setActiveNetwork\<close> carries over when it spreads a network
  configuration into the provider configuration.
\<close>

record ProviderConfiguration =
  pc_type :: string
  pc_chainId :: "string option"
  pc_rpcUrl :: "string option"
  pc_ticker :: "string option"
  pc_nickname :: "string option"
  pc_rpcPrefs :: "RpcPrefs option"
  pc_id :: "string option"

text \<open>
  \<open>NetworkDetails\<close>: the \<open>EIPS\<close> map and the other, open properties. A slot of
  \<open>EIPS\<close> that holds \<open>undefined\<close> and a slot that is absent both read as \<open>None\<close>
  (the code only ever compares a slot with \<open>undefined\<close>).
\<close>

record NetworkDetails =
  EIPS :: "nat \<Rightarrow> bool option"
  otherProperties :: "string \<Rightarrow> string option"

record NetworkConfiguration =
  nc_id :: string
  nc_rpcUrl :: string
  nc_chainId :: string
  nc_ticker :: string
  nc_nickname :: "string option"
  nc_rpcPrefs :: "RpcPrefs option"

text \<open>
  \<open>NetworkConfigurations\<close> is an object keyed by id. It is an association list in
  the order \<open>Object.values\<close> enumerates it: writing an existing key keeps its place,
  writing a new key appends (the keys are uuids, never integer-like strings, which
  JavaScript would enumerate first).
\<close>

type_synonym NetworkConfigurations = "(string \<times> NetworkConfiguration) list"

text \<open>A value caught by a \<open>catch\<close> clause: a primitive, or an object that may carry
  a \<open>code\<close> and a \<open>message\<close> (the message as the string \<open>JSON.parse\<close> and
  \<open>includes\<close> see).\<close>

datatype code_value = NumberCode int | StringCode string

datatype thrown = Primitive | ErrorObject "code_value option" "string option"

datatype json =
  JObject "(string \<times> json) list" | JArray "json list" | JString string
  | JNumber int | JBool bool | JNull

record Block =
  baseFeePerGas :: "string option"

text \<open>What \<open>Promise.all\<close> over \<open>net_version\<close> and \<open>eth_getBlockByNumber\<close>
  settles to: both results once both requests have succeeded, or the rejection it
  reports, which is that of the first request to fail, at the moment it fails.\<close>

datatype rpc_outcome = Resolved string "Block option" | Rejected thrown

datatype block_outcome = BlockResolved "Block option" | BlockRejected thrown

datatype rpc_method = net_version | eth_getBlockByNumber

record MetaMetricsEventPayload =
  event :: string
  category :: string
  referrer_url :: string
  properties_chain_id :: string
  properties_symbol :: string
  properties_source :: string

text \<open>
  Modelled from the spec: \<open>createNetworkClient\<close> (\<open>./create-network-client\<close>) is not
  among the sources. The spec (4.4) makes it a pure constructor from a network
  descriptor to a provider and a block tracker, in two variants; the pair is
  represented by the descriptor it was built from.
\<close>

datatype NetworkClientSpec =
  InfuraClient string string | CustomClient string "string option"

datatype SafeEventEmitterProvider = Provider NetworkClientSpec

datatype PollingBlockTracker = BlockTracker NetworkClientSpec

definition createNetworkClient ::
  "NetworkClientSpec \<Rightarrow> SafeEventEmitterProvider \<times> PollingBlockTracker" where
  "createNetworkClient s = (Provider s, BlockTracker s)"

text \<open>The local variables of one run of \<open>lookupNetwork\<close> that outlive its
  \<open>await\<close>: \<open>isInfura\<close>, the flag \<open>networkChanged\<close>, and whether its listener is
  still subscribed to \<open>NetworkDidChange\<close>.\<close>

record probe =
  isInfura :: bool
  networkChanged :: bool
  listening :: bool

record BuiltInInfuraNetwork =
  bi_chainId :: string
  bi_ticker :: "string option"
  bi_blockExplorerUrl :: "string option"

text \<open>
  The constants and helpers the class imports from modules that are not among the
  sources (\<open>shared/constants/network\<close>, \<open>shared/modules/network.utils\<close>,
  \<open>shared/constants/metametrics\<close>, \<open>eth-rpc-errors\<close>), the platform functions it
  calls (\<open>parseInt\<close>, \<open>new URL\<close>, \<open>JSON.parse\<close>, \<open>String.prototype.toLowerCase\<close>)
  and the \<open>process.env\<close> flags it reads are parameters. \<open>new_URL\<close> gives the value
  the constructor throws, if it throws; \<open>JSON_parse\<close> gives \<open>None\<close> when it throws;
  \<open>parseInt\<close> gives \<open>None\<close> for \<open>NaN\<close>.
\<close>

record deps =
  INFURA_PROVIDER_TYPES :: "string list"
  BUILT_IN_INFURA_NETWORKS :: "string \<Rightarrow> BuiltInInfuraNetwork option"
  INFURA_BLOCKED_KEY :: string
  errorCodes_rpc_internal :: int
  isPrefixedFormattedHexString :: "string \<Rightarrow> bool"
  isSafeChainId :: "int option \<Rightarrow> bool"
  parseInt :: "string \<Rightarrow> nat \<Rightarrow> int option"
  new_URL :: "string \<Rightarrow> thrown option"
  JSON_parse :: "string \<Rightarrow> json option"
  toLowerCase :: "string \<Rightarrow> string"
  MetaMetricsEventCategory_Network :: string
  NETWORK_TYPES_MAINNET :: string
  NETWORK_TYPES_GOERLI :: string
  CHAIN_IDS_MAINNET :: string
  CHAIN_IDS_GOERLI :: string
  TEST_NETWORK_TICKER_MAP_GOERLI :: string
  env_IN_TEST :: bool
  env_METAMASK_DEBUG :: bool
  env_METAMASK_ENV :: string

record NetworkController =
  providerStore :: ProviderConfiguration
  previousProviderStore :: ProviderConfiguration
  networkIdStore :: "string option"
  networkStatusStore :: NetworkStatus
  networkDetails :: NetworkDetails
  networkConfigurationsStore :: NetworkConfigurations
  provider :: "SafeEventEmitterProvider option"
  blockTracker :: "PollingBlockTracker option"
  providerProxy :: "SafeEventEmitterProvider option"
  blockTrackerProxy :: "PollingBlockTracker option"
  infuraProjectId :: string
  published :: "NetworkControllerEventType list"
  probes :: "nat \<Rightarrow> probe option"
  nextProbe :: nat
  requests :: "rpc_method list"
  tracked :: "MetaMetricsEventPayload list"

datatype error =
  InvalidInfuraProjectId
  | InvalidChainIdHex string
  | InvalidChainIdUnsafe string
  | RpcUrlRequired
  | ReferrerAndSourceRequired
  | RpcUrlMustBeValid
  | TickerRequired
  | UnknownNetworkConfigurationId string
  | SetProviderTypeRpc
  | UnknownInfuraProviderType string
  | UndefinedBuiltInNetwork string
  | UnknownProviderType string

section \<open>Helpers\<close>

text \<open>\<open>!s\<close> for an optional string: absent or empty.\<close>

definition falsy :: "string option \<Rightarrow> bool" where
  "falsy s = (s = None \<or> s = Some [])"

text \<open>\<open>NETWORK_TYPES.RPC\<close>, which the documentation of \<open>ProviderConfiguration\<close>
  spells out: "rpc" for everything else.\<close>

definition NETWORK_TYPES_RPC :: string where
  "NETWORK_TYPES_RPC = ''rpc''"

text \<open>
  The property names that every plain object inherits from \<open>Object.prototype\<close>
  (ECMAScript, with its Annex B). Each names a function, or for \<open>__proto__\<close> the
  prototype object itself: a truthy value with no own enumerable property.
\<close>

definition Object_prototype_members :: "string list" where
  "Object_prototype_members =
     [''constructor'', ''hasOwnProperty'', ''isPrototypeOf'', ''propertyIsEnumerable'',
      ''toLocaleString'', ''toString'', ''valueOf'', ''__proto__'',
      ''__defineGetter__'', ''__defineSetter__'', ''__lookupGetter__'',
      ''__lookupSetter__'']"

text \<open>\<open>String.prototype.includes\<close>.\<close>

primrec string_includes :: "string \<Rightarrow> string \<Rightarrow> bool" where
  "string_includes [] sub = (sub = [])"
| "string_includes (c # cs) sub = (take (length sub) (c # cs) = sub \<or> string_includes cs sub)"

definition isErrorWithCode :: "thrown \<Rightarrow> bool" where
  "isErrorWithCode e = (case e of Primitive \<Rightarrow> False | ErrorObject c m \<Rightarrow> c \<noteq> None)"

text \<open>
  Modelled from the spec: \<open>isErrorWithMessage\<close> (\<open>shared/modules/error\<close>) is not
  among the sources. It is the type guard \<open>error is { message: string }\<close> that the
  class uses beside \<open>isErrorWithCode\<close> before it reads \<open>error.message\<close>: an object
  that carries a message.
\<close>

definition isErrorWithMessage :: "thrown \<Rightarrow> bool" where
  "isErrorWithMessage e = (case e of Primitive \<Rightarrow> False | ErrorObject c m \<Rightarrow> m \<noteq> None)"

definition error_code :: "thrown \<Rightarrow> code_value option" where
  "error_code e = (case e of Primitive \<Rightarrow> None | ErrorObject c m \<Rightarrow> c)"

definition error_message :: "thrown \<Rightarrow> string" where
  "error_message e = (case e of ErrorObject c (Some m) \<Rightarrow> m | _ \<Rightarrow> ''undefined'')"

text \<open>\<open>isPlainObject\<close> of \<open>@metamask/utils\<close> on the result of \<open>JSON.parse\<close>
  (\<open>None\<close> when the parse threw and \<open>responseBody\<close> stayed \<open>undefined\<close>).\<close>

definition isPlainObject :: "json option \<Rightarrow> bool" where
  "isPlainObject v = (case v of Some (JObject ps) \<Rightarrow> True | _ \<Rightarrow> False)"

definition json_property :: "json option \<Rightarrow> string \<Rightarrow> json option" where
  "json_property v k = (case v of Some (JObject ps) \<Rightarrow> map_of ps k | _ \<Rightarrow> None)"

definition isDigit :: "char \<Rightarrow> bool" where
  "isDigit c = (c \<in> set ''0123456789'')"

text \<open>\<open>assertNetworkId\<close>: the test \<open>/^\d+$/u\<close>; the second conjunct of the
  source, \<open>!Number.isNaN(Number(value))\<close>, holds of every non-empty string of decimal
  digits.\<close>

definition assertNetworkId :: "string \<Rightarrow> bool" where
  "assertNetworkId v = (v \<noteq> [] \<and> list_all isDigit v)"

text \<open>The \<open>AssertionError\<close> that \<open>assert\<close> throws for \<open>assertNetworkId\<close>.\<close>

definition networkId_AssertionError :: thrown where
  "networkId_AssertionError =
     ErrorObject (Some (StringCode ''ERR_ASSERTION'')) (Some ''value is not a number'')"

definition buildDefaultProviderConfigState :: "deps \<Rightarrow> ProviderConfiguration" where
  "buildDefaultProviderConfigState d =
     (if env_IN_TEST d then
        \<lparr>pc_type = NETWORK_TYPES_RPC, pc_chainId = Some ''0x539'',
         pc_rpcUrl = Some ''http://localhost:8545'', pc_ticker = Some ''ETH'',
         pc_nickname = Some ''Localhost 8545'', pc_rpcPrefs = None, pc_id = None\<rparr>
      else if env_METAMASK_DEBUG d \<or> env_METAMASK_ENV d = ''test'' then
        \<lparr>pc_type = NETWORK_TYPES_GOERLI d, pc_chainId = Some (CHAIN_IDS_GOERLI d),
         pc_rpcUrl = None, pc_ticker = Some (TEST_NETWORK_TICKER_MAP_GOERLI d),
         pc_nickname = None, pc_rpcPrefs = None, pc_id = None\<rparr>
      else
        \<lparr>pc_type = NETWORK_TYPES_MAINNET d, pc_chainId = Some (CHAIN_IDS_MAINNET d),
         pc_rpcUrl = None, pc_ticker = Some ''ETH'',
         pc_nickname = None, pc_rpcPrefs = None, pc_id = None\<rparr>)"

definition buildDefaultNetworkIdState :: "string option" where
  "buildDefaultNetworkIdState = None"

definition buildDefaultNetworkStatusState :: NetworkStatus where
  "buildDefaultNetworkStatusState = Unknown"

definition buildDefaultNetworkDetailsState :: NetworkDetails where
  "buildDefaultNetworkDetailsState =
     \<lparr>EIPS = (\<lambda>n. None), otherProperties = (\<lambda>k. None)\<rparr>"

definition buildDefaultNetworkConfigurationsState :: NetworkConfigurations where
  "buildDefaultNetworkConfigurationsState = []"

definition isInfuraProviderType :: "deps \<Rightarrow> string \<Rightarrow> bool" where
  "isInfuraProviderType d t = (t \<in> set (INFURA_PROVIDER_TYPES d))"

section \<open>The controller\<close>

record ConstructorState =
  st_provider :: "ProviderConfiguration option"
  st_networkDetails :: "NetworkDetails option"
  st_networkConfigurations :: "NetworkConfigurations option"

definition constructor ::
  "deps \<Rightarrow> ConstructorState \<Rightarrow> string \<Rightarrow> error + NetworkController" where
  "constructor d state projectId =
     (let p = (case st_provider state of Some pc \<Rightarrow> pc
               | None \<Rightarrow> buildDefaultProviderConfigState d)
      in if projectId = [] then Inl InvalidInfuraProjectId
         else Inr
           \<lparr>providerStore = p,
            previousProviderStore = p,
            networkIdStore = buildDefaultNetworkIdState,
            networkStatusStore = buildDefaultNetworkStatusState,
            networkDetails = (case st_networkDetails state of Some nd \<Rightarrow> nd
                              | None \<Rightarrow> buildDefaultNetworkDetailsState),
            networkConfigurationsStore =
              (case st_networkConfigurations state of Some ncs \<Rightarrow> ncs
               | None \<Rightarrow> buildDefaultNetworkConfigurationsState),
            provider = None,
            blockTracker = None,
            providerProxy = None,
            blockTrackerProxy = None,
            infuraProjectId = projectId,
            published = [],
            probes = (\<lambda>pid. None),
            nextProbe = 0,
            requests = [],
            tracked = []\<rparr>)"

text \<open>The listener that \<open>lookupNetwork\<close> subscribes to \<open>NetworkDidChange\<close>: it sets
  the flag of its run and unsubscribes itself.\<close>

definition listener :: "probe \<Rightarrow> probe" where
  "listener p = (if listening p then p\<lparr>networkChanged := True, listening := False\<rparr> else p)"

text \<open>\<open>messenger.publish\<close>: the event is recorded, and \<open>NetworkDidChange\<close> runs the
  listeners subscribed to it.\<close>

definition publish :: "NetworkControllerEventType \<Rightarrow> NetworkController \<Rightarrow> NetworkController" where
  "publish ev c =
     (let c' = (if ev = NetworkDidChange
                then c\<lparr>probes := (\<lambda>pid. map_option listener (probes c pid))\<rparr> else c)
      in c'\<lparr>published := published c' @ [ev]\<rparr>)"

definition getProviderAndBlockTracker ::
  "NetworkController \<Rightarrow> SafeEventEmitterProvider option \<times> PollingBlockTracker option" where
  "getProviderAndBlockTracker c = (providerProxy c, blockTrackerProxy c)"

definition resetNetworkId :: "NetworkController \<Rightarrow> NetworkController" where
  "resetNetworkId c = c\<lparr>networkIdStore := buildDefaultNetworkIdState\<rparr>"

definition resetNetworkStatus :: "NetworkController \<Rightarrow> NetworkController" where
  "resetNetworkStatus c = c\<lparr>networkStatusStore := buildDefaultNetworkStatusState\<rparr>"

definition resetNetworkDetails :: "NetworkController \<Rightarrow> NetworkController" where
  "resetNetworkDetails c = c\<lparr>networkDetails := buildDefaultNetworkDetailsState\<rparr>"

text \<open>\<open>_determineEIP1559Compatibility\<close> once the latest block has arrived:
  \<open>latestBlock?.baseFeePerGas !== undefined\<close>.\<close>

definition determineEIP1559Compatibility :: "Block option \<Rightarrow> bool" where
  "determineEIP1559Compatibility latestBlock =
     (case latestBlock of None \<Rightarrow> False | Some b \<Rightarrow> baseFeePerGas b \<noteq> None)"

text \<open>\<open>networkDetails.updateState({ EIPS: { ...EIPS, 1559: v } })\<close>: a shallow merge,
  the other properties of the details stay.\<close>

definition updateEIP1559 :: "bool \<Rightarrow> NetworkController \<Rightarrow> NetworkController" where
  "updateEIP1559 v c =
     c\<lparr>networkDetails := (networkDetails c)\<lparr>EIPS := (EIPS (networkDetails c))(1559 \<mapsto> v)\<rparr>\<rparr>"

subsection \<open>getEIP1559Compatibility\<close>

text \<open>Up to its \<open>await\<close>: the value it returns at once, or \<open>None\<close> when it has
  issued \<open>eth_getBlockByNumber\<close> and waits for the block.\<close>

definition getEIP1559Compatibility_begin ::
  "NetworkController \<Rightarrow> bool option \<times> NetworkController" where
  "getEIP1559Compatibility_begin c =
     (case EIPS (networkDetails c) 1559 of
        Some v \<Rightarrow> (Some v, c)
      | None \<Rightarrow>
          (case fst (getProviderAndBlockTracker c) of
             None \<Rightarrow> (Some False, c)
           | Some p \<Rightarrow> (None, c\<lparr>requests := requests c @ [eth_getBlockByNumber]\<rparr>)))"

text \<open>After the \<open>await\<close>: a rejection is passed on to the caller, a block is
  inspected and the result stored and returned.\<close>

definition getEIP1559Compatibility_resume ::
  "block_outcome \<Rightarrow> NetworkController \<Rightarrow> (thrown + bool) \<times> NetworkController" where
  "getEIP1559Compatibility_resume out c =
     (case out of
        BlockRejected e \<Rightarrow> (Inl e, c)
      | BlockResolved latestBlock \<Rightarrow>
          (let supportsEIP1559 = determineEIP1559Compatibility latestBlock
           in (Inr supportsEIP1559, updateEIP1559 supportsEIP1559 c)))"

subsection \<open>lookupNetwork\<close>

text \<open>The \<open>catch\<close> clause of \<open>lookupNetwork\<close>.\<close>

definition classifyError :: "deps \<Rightarrow> thrown \<Rightarrow> NetworkStatus" where
  "classifyError d e =
     (if isErrorWithCode e \<and> isErrorWithMessage e then
        (let responseBody = JSON_parse d (error_message e)
         in if isPlainObject responseBody
               \<and> json_property responseBody ''error'' = Some (JString (INFURA_BLOCKED_KEY d))
            then Blocked
            else if error_code e = Some (NumberCode (errorCodes_rpc_internal d))
            then Unknown
            else Unavailable)
      else Unknown)"

text \<open>The \<open>try\<close> statement: the values of \<open>networkId\<close>, \<open>supportsEIP1559\<close> and
  \<open>networkStatus\<close> after it.\<close>

definition probeResult :: "deps \<Rightarrow> rpc_outcome \<Rightarrow> string option \<times> bool \<times> NetworkStatus" where
  "probeResult d out =
     (case out of
        Resolved possibleNetworkId latestBlock \<Rightarrow>
          (if assertNetworkId possibleNetworkId
           then (Some possibleNetworkId, determineEIP1559Compatibility latestBlock, Available)
           else (None, False, classifyError d networkId_AssertionError))
      | Rejected e \<Rightarrow> (None, False, classifyError d e))"

text \<open>Up to the \<open>await\<close>. \<open>Some pid\<close> names the run that now waits for its two
  requests; \<open>None\<close> says the call has returned.\<close>

definition lookupNetwork_begin ::
  "deps \<Rightarrow> NetworkController \<Rightarrow> nat option \<times> NetworkController" where
  "lookupNetwork_begin d c =
     (let chainId = pc_chainId (providerStore c);
          type = pc_type (providerStore c)
      in case fst (getProviderAndBlockTracker c) of
           None \<Rightarrow> (None, c)
         | Some p \<Rightarrow>
             if falsy chainId
             then (None, resetNetworkDetails (resetNetworkStatus (resetNetworkId c)))
             else
               (let pid = nextProbe c
                in (Some pid,
                    c\<lparr>probes := (probes c)(pid \<mapsto>
                         \<lparr>isInfura = isInfuraProviderType d type,
                          networkChanged = False, listening = True\<rparr>),
                      nextProbe := Suc pid,
                      requests := requests c @ [net_version, eth_getBlockByNumber]\<rparr>)))"

text \<open>The events of the last statement of \<open>lookupNetwork\<close>.\<close>

definition publishInfuraStatus ::
  "bool \<Rightarrow> NetworkStatus \<Rightarrow> NetworkController \<Rightarrow> NetworkController" where
  "publishInfuraStatus isInf networkStatus c =
     (if isInf then
        (if networkStatus = Available then publish InfuraIsUnblocked c
         else if networkStatus = Blocked then publish InfuraIsBlocked c
         else c)
      else publish InfuraIsUnblocked c)"

text \<open>From the \<open>await\<close> on, for the run \<open>pid\<close> and what its requests settled to.
  A run that is not waiting has no continuation.\<close>

definition lookupNetwork_resume ::
  "deps \<Rightarrow> nat \<Rightarrow> rpc_outcome \<Rightarrow> NetworkController \<Rightarrow> NetworkController" where
  "lookupNetwork_resume d pid out c =
     (case probes c pid of
        None \<Rightarrow> c
      | Some p \<Rightarrow>
          (case probeResult d out of
             (networkId, supportsEIP1559, networkStatus) \<Rightarrow>
               (let c0 = c\<lparr>probes := (probes c)(pid := None)\<rparr>
                in if networkChanged p then c0
                   else
                     (let c1 = c0\<lparr>networkStatusStore := networkStatus\<rparr>;
                          c2 = (if networkStatus = Available
                                then updateEIP1559 supportsEIP1559
                                       (c1\<lparr>networkIdStore := networkId\<rparr>)
                                else resetNetworkDetails (resetNetworkId c1))
                      in publishInfuraStatus (isInfura p) networkStatus c2))))"

subsection \<open>Switching networks\<close>

definition setProviderAndBlockTracker ::
  "SafeEventEmitterProvider \<times> PollingBlockTracker \<Rightarrow> NetworkController \<Rightarrow> NetworkController" where
  "setProviderAndBlockTracker pb c =
     (let c1 = (case providerProxy c of
                  Some target \<Rightarrow> c\<lparr>providerProxy := Some (fst pb)\<rparr>
                | None \<Rightarrow> c\<lparr>providerProxy := Some (fst pb)\<rparr>);
          c2 = (case blockTrackerProxy c1 of
                  Some target \<Rightarrow> c1\<lparr>blockTrackerProxy := Some (snd pb)\<rparr>
                | None \<Rightarrow> c1\<lparr>blockTrackerProxy := Some (snd pb)\<rparr>)
      in c2\<lparr>provider := Some (fst pb), blockTracker := Some (snd pb)\<rparr>)"

definition configureInfuraProvider :: "string \<Rightarrow> string \<Rightarrow> NetworkController \<Rightarrow> NetworkController" where
  "configureInfuraProvider type projectId c =
     setProviderAndBlockTracker (createNetworkClient (InfuraClient type projectId)) c"

definition configureStandardProvider ::
  "string \<Rightarrow> string option \<Rightarrow> NetworkController \<Rightarrow> NetworkController" where
  "configureStandardProvider rpcUrl chainId c =
     setProviderAndBlockTracker (createNetworkClient (CustomClient rpcUrl chainId)) c"

definition configureProvider ::
  "deps \<Rightarrow> ProviderConfiguration \<Rightarrow> NetworkController \<Rightarrow> (error + unit) \<times> NetworkController" where
  "configureProvider d pc c =
     (if isInfuraProviderType d (pc_type pc)
      then (Inr (), configureInfuraProvider (pc_type pc) (infuraProjectId c) c)
      else if pc_type pc = NETWORK_TYPES_RPC \<and> \<not> falsy (pc_rpcUrl pc)
      then (Inr (), configureStandardProvider
                      (case pc_rpcUrl pc of Some rpcUrl \<Rightarrow> rpcUrl | None \<Rightarrow> []) (pc_chainId pc) c)
      else (Inl (UnknownProviderType (pc_type pc)), c))"

text \<open>\<open>_switchNetwork\<close>. The call of \<open>lookupNetwork\<close> at its end is not awaited: the
  run is left waiting.\<close>

definition switchNetwork ::
  "deps \<Rightarrow> ProviderConfiguration \<Rightarrow> NetworkController \<Rightarrow> (error + unit) \<times> NetworkController" where
  "switchNetwork d pc c =
     (let c1 = publish NetworkWillChange c;
          c2 = resetNetworkDetails (resetNetworkStatus (resetNetworkId c1))
      in case configureProvider d pc c2 of
           (Inl e, c3) \<Rightarrow> (Inl e, c3)
         | (Inr u, c3) \<Rightarrow>
             (Inr (), snd (lookupNetwork_begin d (publish NetworkDidChange c3))))"

text \<open>\<open>_setProviderConfig\<close>.\<close>

definition setProviderConfig ::
  "deps \<Rightarrow> ProviderConfiguration \<Rightarrow> NetworkController \<Rightarrow> (error + unit) \<times> NetworkController" where
  "setProviderConfig d pc c =
     switchNetwork d pc
       (c\<lparr>previousProviderStore := providerStore c, providerStore := pc\<rparr>)"

definition initializeProvider ::
  "deps \<Rightarrow> NetworkController \<Rightarrow> (error + unit) \<times> NetworkController" where
  "initializeProvider d c =
     (let pc = providerStore c
      in case configureProvider d pc c of
           (Inl e, c1) \<Rightarrow> (Inl e, c1)
         | (Inr u, c1) \<Rightarrow> (Inr (), snd (lookupNetwork_begin d c1)))"

text \<open>
  \<open>setActiveNetwork\<close>. The registry is a plain object, and
  \<open>getState()[networkConfigurationId]\<close> reads an inherited property where the id
  is not an own key: for the name of a member of \<open>Object.prototype\<close> the guard
  \<open>!targetNetwork\<close> does not fire, the spread of the member adds nothing to
  \<open>{ type: "rpc" }\<close>, and the \<open>rpcUrl\<close> returned in the end is \<open>undefined\<close>
  (\<open>None\<close>).
\<close>

definition setActiveNetwork ::
  "deps \<Rightarrow> string \<Rightarrow> NetworkController \<Rightarrow> (error + string option) \<times> NetworkController" where
  "setActiveNetwork d networkConfigurationId c =
     (case map_of (networkConfigurationsStore c) networkConfigurationId of
        None \<Rightarrow>
          if networkConfigurationId \<in> set Object_prototype_members
          then (case setProviderConfig d
                       \<lparr>pc_type = NETWORK_TYPES_RPC, pc_chainId = None, pc_rpcUrl = None,
                        pc_ticker = None, pc_nickname = None, pc_rpcPrefs = None,
                        pc_id = None\<rparr> c of
                  (Inl e, c1) \<Rightarrow> (Inl e, c1)
                | (Inr u, c1) \<Rightarrow> (Inr None, c1))
          else (Inl (UnknownNetworkConfigurationId networkConfigurationId), c)
      | Some targetNetwork \<Rightarrow>
          (case setProviderConfig d
                  \<lparr>pc_type = NETWORK_TYPES_RPC,
                   pc_chainId = Some (nc_chainId targetNetwork),
                   pc_rpcUrl = Some (nc_rpcUrl targetNetwork),
                   pc_ticker = Some (nc_ticker targetNetwork),
                   pc_nickname = nc_nickname targetNetwork,
                   pc_rpcPrefs = nc_rpcPrefs targetNetwork,
                   pc_id = Some (nc_id targetNetwork)\<rparr> c of
             (Inl e, c1) \<Rightarrow> (Inl e, c1)
           | (Inr u, c1) \<Rightarrow> (Inr (Some (nc_rpcUrl targetNetwork)), c1)))"

definition setProviderType ::
  "deps \<Rightarrow> string \<Rightarrow> NetworkController \<Rightarrow> (error + unit) \<times> NetworkController" where
  "setProviderType d type c =
     (if type = NETWORK_TYPES_RPC then (Inl SetProviderTypeRpc, c)
      else if \<not> isInfuraProviderType d type then (Inl (UnknownInfuraProviderType type), c)
      else
        (case BUILT_IN_INFURA_NETWORKS d type of
           None \<Rightarrow> (Inl (UndefinedBuiltInNetwork type), c)
         | Some network \<Rightarrow>
             setProviderConfig d
               \<lparr>pc_type = type,
                pc_chainId = Some (bi_chainId network),
                pc_rpcUrl = Some [],
                pc_ticker = Some (case bi_ticker network of Some t \<Rightarrow> t | None \<Rightarrow> ''ETH''),
                pc_nickname = Some [],
                pc_rpcPrefs = Some \<lparr>blockExplorerUrl = bi_blockExplorerUrl network\<rparr>,
                pc_id = None\<rparr> c))"

definition resetConnection ::
  "deps \<Rightarrow> NetworkController \<Rightarrow> (error + unit) \<times> NetworkController" where
  "resetConnection d c = setProviderConfig d (providerStore c) c"

definition rollbackToPreviousProvider ::
  "deps \<Rightarrow> NetworkController \<Rightarrow> (error + unit) \<times> NetworkController" where
  "rollbackToPreviousProvider d c =
     (let config = previousProviderStore c
      in switchNetwork d config (c\<lparr>providerStore := config\<rparr>))"

subsection \<open>Network configurations\<close>

record NetworkConfigurationInput =
  in_rpcUrl :: "string option"
  in_chainId :: string
  in_ticker :: "string option"
  in_nickname :: "string option"
  in_rpcPrefs :: "RpcPrefs option"

record UpsertArgs =
  setActive :: bool
  referrer :: "string option"
  source :: "string option"

text \<open>The \<open>try\<close> statement around \<open>new URL(rpcUrl)\<close>: whether it ends in the
  throw of "rpcUrl must be a valid URL". Any other error of the constructor is
  swallowed.\<close>

definition rejectsUrl :: "deps \<Rightarrow> string \<Rightarrow> bool" where
  "rejectsUrl d rpcUrl =
     (case new_URL d rpcUrl of
        None \<Rightarrow> False
      | Some e \<Rightarrow> isErrorWithMessage e \<and> string_includes (error_message e) ''Invalid URL'')"

text \<open>\<open>Object.values(networkConfigurations).find(...)?.id\<close>.\<close>

definition findOldNetworkConfigurationId ::
  "deps \<Rightarrow> NetworkConfigurations \<Rightarrow> string \<Rightarrow> string option" where
  "findOldNetworkConfigurationId d networkConfigurations rpcUrl =
     map_option nc_id
       (List.find (\<lambda>networkConfiguration.
            toLowerCase d (nc_rpcUrl networkConfiguration) = toLowerCase d rpcUrl)
          (map snd networkConfigurations))"

definition trackMetaMetricsEvent ::
  "MetaMetricsEventPayload \<Rightarrow> NetworkController \<Rightarrow> NetworkController" where
  "trackMetaMetricsEvent payload c = c\<lparr>tracked := tracked c @ [payload]\<rparr>"

text \<open>\<open>oldNetworkConfigurationId || uuid()\<close>. The argument \<open>uuid\<close> is the value
  that a call of \<open>uuid()\<close> returns; it is used only where the source calls it.\<close>

definition newNetworkConfigurationId :: "string option \<Rightarrow> string \<Rightarrow> string" where
  "newNetworkConfigurationId oldNetworkConfigurationId uuid =
     (case oldNetworkConfigurationId of
        None \<Rightarrow> uuid
      | Some i \<Rightarrow> if i = [] then uuid else i)"

text \<open>The part of \<open>upsertNetworkConfiguration\<close> between the validation of its
  arguments and the test of \<open>setActive\<close>: the write to the store and the MetaMetrics
  event. \<open>rpcUrl\<close>, \<open>ticker\<close>, \<open>ref\<close> (the referrer) and \<open>src\<close> (the source)
  are the values the validation found present.\<close>

definition writeNetworkConfiguration ::
  "deps \<Rightarrow> string \<Rightarrow> string \<Rightarrow> string \<Rightarrow> string \<Rightarrow> string \<Rightarrow> NetworkConfigurationInput
     \<Rightarrow> NetworkController \<Rightarrow> string \<times> NetworkController" where
  "writeNetworkConfiguration d uuid rpcUrl ticker ref src inp c =
     (let networkConfigurations = networkConfigurationsStore c;
          oldNetworkConfigurationId =
            findOldNetworkConfigurationId d networkConfigurations rpcUrl;
          newId = newNetworkConfigurationId oldNetworkConfigurationId uuid;
          c1 = c\<lparr>networkConfigurationsStore :=
                 AList.update newId
                   \<lparr>nc_id = newId,
                    nc_rpcUrl = rpcUrl,
                    nc_chainId = in_chainId inp,
                    nc_ticker = ticker,
                    nc_nickname = in_nickname inp,
                    nc_rpcPrefs = in_rpcPrefs inp\<rparr>
                   networkConfigurations\<rparr>
      in (newId,
          if falsy oldNetworkConfigurationId
          then trackMetaMetricsEvent
                 \<lparr>event = ''Custom Network Added'',
                  category = MetaMetricsEventCategory_Network d,
                  referrer_url = ref,
                  properties_chain_id = in_chainId inp,
                  properties_symbol = ticker,
                  properties_source = src\<rparr> c1
          else c1))"

definition upsertNetworkConfiguration ::
  "deps \<Rightarrow> string \<Rightarrow> NetworkConfigurationInput \<Rightarrow> UpsertArgs \<Rightarrow> NetworkController
     \<Rightarrow> (error + string) \<times> NetworkController" where
  "upsertNetworkConfiguration d uuid inp args c =
     (if \<not> isPrefixedFormattedHexString d (in_chainId inp)
      then (Inl (InvalidChainIdHex (in_chainId inp)), c)
      else if \<not> isSafeChainId d (parseInt d (in_chainId inp) 16)
      then (Inl (InvalidChainIdUnsafe (in_chainId inp)), c)
      else
        (case in_rpcUrl inp of
           None \<Rightarrow> (Inl RpcUrlRequired, c)
         | Some rpcUrl \<Rightarrow>
             if rpcUrl = [] then (Inl RpcUrlRequired, c)
             else
               (case (referrer args, source args) of
                  (Some ref, Some src) \<Rightarrow>
                    if ref = [] \<or> src = [] then (Inl ReferrerAndSourceRequired, c)
                    else if rejectsUrl d rpcUrl then (Inl RpcUrlMustBeValid, c)
                    else
                      (case in_ticker inp of
                         None \<Rightarrow> (Inl TickerRequired, c)
                       | Some ticker \<Rightarrow>
                           if ticker = [] then (Inl TickerRequired, c)
                           else
                             (case writeNetworkConfiguration d uuid rpcUrl ticker
                                     ref src inp c of
                                (newId, c2) \<Rightarrow>
                                  if setActive args
                                  then (case setActiveNetwork d newId c2 of
                                          (Inl e, c3) \<Rightarrow> (Inl e, c3)
                                        | (Inr u, c3) \<Rightarrow> (Inr newId, c3))
                                  else (Inr newId, c2)))
                | _ \<Rightarrow> (Inl ReferrerAndSourceRequired, c))))"

definition removeNetworkConfiguration :: "string \<Rightarrow> NetworkController \<Rightarrow> NetworkController" where
  "removeNetworkConfiguration networkConfigurationId c =
     c\<lparr>networkConfigurationsStore :=
         AList.delete networkConfigurationId (networkConfigurationsStore c)\<rparr>"

text \<open>Whether the message of a caught error parses, as JSON, to a plain object whose
  \<open>error\<close> property is the blocked sentinel.\<close>

definition messageIsBlocked :: "deps \<Rightarrow> thrown \<Rightarrow> bool" where
  "messageIsBlocked d e =
     (case JSON_parse d (error_message e) of
        Some (JObject ps) \<Rightarrow> map_of ps ''error'' = Some (JString (INFURA_BLOCKED_KEY d))
      | _ \<Rightarrow> False)"

section \<open>Interleavings\<close>

text \<open>
  The controller runs on one thread: between the \<open>await\<close> of a pending run and its
  continuation, any number of other calls and continuations may take place. An
  \<open>action\<close> is one such uninterrupted piece: a call of a public method up to its
  return or its \<open>await\<close>, or the continuation of a pending run with what its requests
  settled to. \<open>exec\<close> gives the state an action leaves, also when it throws.
\<close>

datatype action =
  InitializeProvider
  | LookupNetwork
  | LookupNetworkSettled nat rpc_outcome
  | GetEIP1559Compatibility
  | GetEIP1559CompatibilitySettled block_outcome
  | SetActiveNetwork string
  | SetProviderType string
  | ResetConnection
  | RollbackToPreviousProvider
  | UpsertNetworkConfiguration string NetworkConfigurationInput UpsertArgs
  | RemoveNetworkConfiguration string

fun exec :: "deps \<Rightarrow> action \<Rightarrow> NetworkController \<Rightarrow> NetworkController" where
  "exec d InitializeProvider c = snd (initializeProvider d c)"
| "exec d LookupNetwork c = snd (lookupNetwork_begin d c)"
| "exec d (LookupNetworkSettled pid out) c = lookupNetwork_resume d pid out c"
| "exec d GetEIP1559Compatibility c = snd (getEIP1559Compatibility_begin c)"
| "exec d (GetEIP1559CompatibilitySettled out) c = snd (getEIP1559Compatibility_resume out c)"
| "exec d (SetActiveNetwork i) c = snd (setActiveNetwork d i c)"
| "exec d (SetProviderType t) c = snd (setProviderType d t c)"
| "exec d ResetConnection c = snd (resetConnection d c)"
| "exec d RollbackToPreviousProvider c = snd (rollbackToPreviousProvider d c)"
| "exec d (UpsertNetworkConfiguration uuid inp args) c =
     snd (upsertNetworkConfiguration d uuid inp args c)"
| "exec d (RemoveNetworkConfiguration i) c = removeNetworkConfiguration i c"

fun run :: "deps \<Rightarrow> action list \<Rightarrow> NetworkController \<Rightarrow> NetworkController" where
  "run d [] c = c"
| "run d (a # as) c = run d as (exec d a c)"

text \<open>Whether an action is the continuation of the run \<open>pid\<close>.\<close>

fun settles :: "nat \<Rightarrow> action \<Rightarrow> bool" where
  "settles pid (LookupNetworkSettled pid' out) = (pid' = pid)"
| "settles pid a = False"

text \<open>The events published since the state \<open>c\<close>, seen from a later state \<open>c'\<close>.\<close>

definition publishedSince ::
  "NetworkController \<Rightarrow> NetworkController \<Rightarrow> NetworkControllerEventType list" where
  "publishedSince c c' = drop (length (published c)) (published c')"

text \<open>
  How a later state \<open>c'\<close> relates to \<open>c\<close> as far as the pending run \<open>pid\<close> can
  tell: events were only added, and the local variables of the run are as they were,
  except that its listener has run if \<open>NetworkDidChange\<close> is among the added events.
\<close>

definition advances :: "nat \<Rightarrow> NetworkController \<Rightarrow> NetworkController \<Rightarrow> bool" where
  "advances pid c c' =
     (nextProbe c \<le> nextProbe c' \<and>
      (\<exists>evs. published c' = published c @ evs \<and>
         probes c' pid = (if NetworkDidChange \<in> set evs
                          then map_option listener (probes c pid) else probes c pid)))"

section \<open>The registry of network configurations\<close>

text \<open>
  The invariants of the data model (spec, section 3): the registry is keyed by the ids
  of its entries, an id is a uuid and so not the empty string, and no two entries have
  the same \<open>rpcUrl\<close> up to letter case.
\<close>

definition lowerRpcUrl :: "deps \<Rightarrow> string \<times> NetworkConfiguration \<Rightarrow> string" where
  "lowerRpcUrl d kv = toLowerCase d (nc_rpcUrl (snd kv))"

definition keyedById :: "NetworkConfigurations \<Rightarrow> bool" where
  "keyedById ncs = list_all (\<lambda>kv. nc_id (snd kv) = fst kv \<and> fst kv \<noteq> []) ncs"

definition wellFormedRegistry :: "deps \<Rightarrow> NetworkConfigurations \<Rightarrow> bool" where
  "wellFormedRegistry d ncs =
     (distinct (map fst ncs) \<and> keyedById ncs \<and> distinct (map (lowerRpcUrl d) ncs))"

text \<open>The entries of the registry whose \<open>rpcUrl\<close> equals the given one up to letter
  case.\<close>

definition matching :: "deps \<Rightarrow> string \<Rightarrow> NetworkConfigurations \<Rightarrow> NetworkConfigurations" where
  "matching d rpcUrl ncs = filter (\<lambda>kv. lowerRpcUrl d kv = toLowerCase d rpcUrl) ncs"

text \<open>An action is \<open>uuidSound\<close> when the value it takes from \<open>uuid()\<close> is not the
  empty string, as no uuid is.\<close>

fun uuidSound :: "action \<Rightarrow> bool" where
  "uuidSound (UpsertNetworkConfiguration uuid inp args) = (uuid \<noteq> [])"
| "uuidSound a = True"

section \<open>An environment and states for the examples\<close>

text \<open>
  The examples below run the controller in the environment of the spec's scenarios:
  the built-in networks mainnet, goerli and sepolia, the blocked sentinel
  \<open>countryBlocked\<close>, the JSON-RPC code \<open>-32603\<close> for an internal error. The
  platform functions are given on the inputs the examples use: \<open>JSON.parse\<close>
  on the body of a blocked response and on texts that are not JSON, \<open>toLowerCase\<close>
  on ASCII letters, \<open>new URL\<close> on texts with and without an http scheme.
\<close>

definition blockedMessage :: string where
  \<open>blockedMessage = ''{"error":"countryBlocked"}''\<close>

definition asciiLower :: "char \<Rightarrow> char" where
  "asciiLower ch =
     (case map_of (zip ''ABCDEFGHIJKLMNOPQRSTUVWXYZ'' ''abcdefghijklmnopqrstuvwxyz'') ch of
        Some l \<Rightarrow> l | None \<Rightarrow> ch)"

definition hexDigit :: "char \<Rightarrow> int option" where
  "hexDigit ch =
     map_of (zip ''0123456789abcdefABCDEF''
               [0, 1, 2, 3, 4, 5, 6, 7, 8, 9, 10, 11, 12, 13, 14, 15, 10, 11, 12, 13, 14, 15]) ch"

fun hexValue :: "int \<Rightarrow> string \<Rightarrow> int option" where
  "hexValue acc [] = Some acc"
| "hexValue acc (ch # cs) =
     (case hexDigit ch of None \<Rightarrow> None | Some v \<Rightarrow> hexValue (16 * acc + v) cs)"

definition exampleDeps :: deps where
  "exampleDeps =
     \<lparr>INFURA_PROVIDER_TYPES = [''mainnet'', ''goerli'', ''sepolia''],
      BUILT_IN_INFURA_NETWORKS = map_of
        [(''mainnet'', \<lparr>bi_chainId = ''0x1'', bi_ticker = None,
                        bi_blockExplorerUrl = Some ''https://etherscan.io''\<rparr>),
         (''goerli'', \<lparr>bi_chainId = ''0x5'', bi_ticker = Some ''GoerliETH'',
                       bi_blockExplorerUrl = Some ''https://goerli.etherscan.io''\<rparr>),
         (''sepolia'', \<lparr>bi_chainId = ''0xaa36a7'', bi_ticker = Some ''SepoliaETH'',
                        bi_blockExplorerUrl = Some ''https://sepolia.etherscan.io''\<rparr>)],
      INFURA_BLOCKED_KEY = ''countryBlocked'',
      errorCodes_rpc_internal = - 32603,
      isPrefixedFormattedHexString =
        (\<lambda>s. take 2 s = ''0x'' \<and> drop 2 s \<noteq> [] \<and> take 1 (drop 2 s) \<noteq> ''0''
              \<and> hexValue 0 (drop 2 s) \<noteq> None),
      isSafeChainId = (\<lambda>n. case n of None \<Rightarrow> False | Some k \<Rightarrow> 0 < k \<and> k \<le> 4503599627370476),
      parseInt = (\<lambda>s radix. if radix = 16 \<and> take 2 s = ''0x'' \<and> drop 2 s \<noteq> []
                             then hexValue 0 (drop 2 s) else None),
      new_URL = (\<lambda>s. if take 7 s = ''http://'' \<or> take 8 s = ''https://'' then None
                      else Some (ErrorObject (Some (StringCode ''ERR_INVALID_URL''))
                                   (Some ''Invalid URL''))),
      JSON_parse = (\<lambda>s. if s = blockedMessage
                         then Some (JObject [(''error'', JString ''countryBlocked'')])
                         else None),
      toLowerCase = map asciiLower,
      MetaMetricsEventCategory_Network = ''Network'',
      NETWORK_TYPES_MAINNET = ''mainnet'',
      NETWORK_TYPES_GOERLI = ''goerli'',
      CHAIN_IDS_MAINNET = ''0x1'',
      CHAIN_IDS_GOERLI = ''0x5'',
      TEST_NETWORK_TICKER_MAP_GOERLI = ''GoerliETH'',
      env_IN_TEST = False,
      env_METAMASK_DEBUG = False,
      env_METAMASK_ENV = ''production''\<rparr>"

text \<open>The controller as the constructor leaves it, with no restored state and the
  project id \<open>K\<close> (scenario 1 of the spec).\<close>

definition freshController :: NetworkController where
  "freshController =
     \<lparr>providerStore =
        \<lparr>pc_type = ''mainnet'', pc_chainId = Some ''0x1'', pc_rpcUrl = None,
         pc_ticker = Some ''ETH'', pc_nickname = None, pc_rpcPrefs = None, pc_id = None\<rparr>,
      previousProviderStore =
        \<lparr>pc_type = ''mainnet'', pc_chainId = Some ''0x1'', pc_rpcUrl = None,
         pc_ticker = Some ''ETH'', pc_nickname = None, pc_rpcPrefs = None, pc_id = None\<rparr>,
      networkIdStore = None,
      networkStatusStore = Unknown,
      networkDetails = \<lparr>EIPS = (\<lambda>n. None), otherProperties = (\<lambda>k. None)\<rparr>,
      networkConfigurationsStore = [],
      provider = None,
      blockTracker = None,
      providerProxy = None,
      blockTrackerProxy = None,
      infuraProjectId = ''K'',
      published = [],
      probes = (\<lambda>pid. None),
      nextProbe = 0,
      requests = [],
      tracked = []\<rparr>"

text \<open>The controller as the constructor leaves it when the restored state carries
  network details that say the network supports EIP-1559.\<close>

definition restoredController :: NetworkController where
  "restoredController =
     freshController\<lparr>networkDetails :=
       \<lparr>EIPS = (\<lambda>n. None)(1559 \<mapsto> True), otherProperties = (\<lambda>k. None)\<rparr>\<rparr>"

text \<open>The fresh controller once \<open>initializeProvider\<close> has installed the mainnet
  client (before its \<open>lookupNetwork\<close>).\<close>

definition installedController :: NetworkController where
  "installedController =
     freshController
       \<lparr>provider := Some (Provider (InfuraClient ''mainnet'' ''K'')),
        blockTracker := Some (BlockTracker (InfuraClient ''mainnet'' ''K'')),
        providerProxy := Some (Provider (InfuraClient ''mainnet'' ''K'')),
        blockTrackerProxy := Some (BlockTracker (InfuraClient ''mainnet'' ''K''))\<rparr>"

text \<open>The installed controller once \<open>lookupNetwork\<close> has issued its two requests
  and waits for them: the run 0 is pending.\<close>

definition pendingController :: NetworkController where
  "pendingController =
     installedController
       \<lparr>probes := (\<lambda>pid. None)(0 \<mapsto> \<lparr>isInfura = True, networkChanged = False,
                                       listening = True\<rparr>),
        nextProbe := 1,
        requests := [net_version, eth_getBlockByNumber]\<rparr>"

text \<open>Scenario 6 of the spec on the pending controller: the state after the upsert of
  \<open>https://Foo/\<close> (minting the id \<open>id-1\<close>, and activating the network), and the
  state after the following upsert of \<open>https://foo/\<close>.\<close>

definition fooController :: NetworkController where
  "fooController =
     snd (upsertNetworkConfiguration exampleDeps ''id-1''
       \<lparr>in_rpcUrl = Some ''https://Foo/'', in_chainId = ''0x5'', in_ticker = Some ''T'',
        in_nickname = None, in_rpcPrefs = None\<rparr>
       \<lparr>setActive = True, referrer = Some ''metamask'', source = Some ''ui''\<rparr>
       pendingController)"

definition fooAgainController :: NetworkController where
  "fooAgainController =
     snd (upsertNetworkConfiguration exampleDeps ''id-2''
       \<lparr>in_rpcUrl = Some ''https://foo/'', in_chainId = ''0x5'', in_ticker = Some ''T'',
        in_nickname = None, in_rpcPrefs = None\<rparr>
       \<lparr>setActive = False, referrer = Some ''metamask'', source = Some ''ui''\<rparr>
       fooController)"

section \<open>Frame properties of the building blocks\<close>

lemma publish_fields [simp]:
  "providerStore (publish ev c) = providerStore c"
  "previousProviderStore (publish ev c) = previousProviderStore c"
  "networkIdStore (publish ev c) = networkIdStore c"
  "networkStatusStore (publish ev c) = networkStatusStore c"
  "networkDetails (publish ev c) = networkDetails c"
  "networkConfigurationsStore (publish ev c) = networkConfigurationsStore c"
  "provider (publish ev c) = provider c"
  "blockTracker (publish ev c) = blockTracker c"
  "providerProxy (publish ev c) = providerProxy c"
  "blockTrackerProxy (publish ev c) = blockTrackerProxy c"
  "infuraProjectId (publish ev c) = infuraProjectId c"
  "published (publish ev c) = published c @ [ev]"
  "nextProbe (publish ev c) = nextProbe c"
  "requests (publish ev c) = requests c"
  "tracked (publish ev c) = tracked c"
  by (simp_all add: publish_def Let_def)

lemma publish_probes:
  "probes (publish ev c) pid =
     (if ev = NetworkDidChange then map_option listener (probes c pid) else probes c pid)"
  by (simp add: publish_def Let_def)

lemma listener_idem: "listener (listener p) = listener p"
  by (simp add: listener_def)

lemma advances_refl: "advances pid c c"
  by (simp add: advances_def)

lemma advances_same:
  "published c' = published c \<Longrightarrow> probes c' pid = probes c pid \<Longrightarrow> nextProbe c \<le> nextProbe c'
     \<Longrightarrow> advances pid c c'"
  by (simp add: advances_def)

lemma advances_trans:
  assumes "advances pid a b" and "advances pid b c"
  shows "advances pid a c"
proof -
  from assms(1) obtain e1 where 1: "nextProbe a \<le> nextProbe b" "published b = published a @ e1"
    "probes b pid = (if NetworkDidChange \<in> set e1
                          then map_option listener (probes a pid) else probes a pid)"
    by (auto simp: advances_def)
  from assms(2) obtain e2 where 2: "nextProbe b \<le> nextProbe c" "published c = published b @ e2"
    "probes c pid = (if NetworkDidChange \<in> set e2
                          then map_option listener (probes b pid) else probes b pid)"
    by (auto simp: advances_def)
  have "published c = published a @ (e1 @ e2)" using 1 2 by simp
  moreover have "probes c pid = (if NetworkDidChange \<in> set (e1 @ e2)
                          then map_option listener (probes a pid) else probes a pid)"
    using 1(3) 2(3) by (cases "probes a pid") (auto simp: listener_idem)
  moreover have "nextProbe a \<le> nextProbe c" using 1 2 by simp
  ultimately show ?thesis unfolding advances_def by blast
qed

lemma advances_publish: "advances pid c (publish ev c)"
  unfolding advances_def
  by (rule conjI, simp, rule exI [of _ "[ev]"]) (simp add: publish_probes)

lemma advances_resets:
  "advances pid c (resetNetworkDetails (resetNetworkStatus (resetNetworkId c)))"
  by (rule advances_same)
     (simp_all add: resetNetworkId_def resetNetworkStatus_def resetNetworkDetails_def)

lemma advances_configureProvider: "advances pid c (snd (configureProvider d pc c))"
  by (rule advances_same)
     (simp_all add: configureProvider_def configureInfuraProvider_def
        configureStandardProvider_def setProviderAndBlockTracker_def Let_def split: option.splits)

lemma lookupNetwork_begin_nextProbe:
  "nextProbe c \<le> nextProbe (snd (lookupNetwork_begin d c))"
  by (simp add: lookupNetwork_begin_def Let_def resetNetworkId_def resetNetworkStatus_def
      resetNetworkDetails_def split: option.splits)

lemma advances_lookupNetwork_begin:
  "pid < nextProbe c \<Longrightarrow> advances pid c (snd (lookupNetwork_begin d c))"
  by (rule advances_same)
     (simp_all add: lookupNetwork_begin_def Let_def resetNetworkId_def resetNetworkStatus_def
      resetNetworkDetails_def split: option.splits)

lemma advances_less: "advances pid c c' \<Longrightarrow> pid < nextProbe c \<Longrightarrow> pid < nextProbe c'"
  by (simp add: advances_def)

lemma advances_switchNetwork:
  assumes "pid < nextProbe c"
  shows "advances pid c (snd (switchNetwork d pc c))"
proof -
  let ?c1 = "publish NetworkWillChange c"
  let ?c2 = "resetNetworkDetails (resetNetworkStatus (resetNetworkId ?c1))"
  obtain r c3 where r: "configureProvider d pc ?c2 = (r, c3)"
    by (cases "configureProvider d pc ?c2")
  have a3: "advances pid c c3"
    using advances_trans [OF advances_trans [OF advances_publish advances_resets]
        advances_configureProvider [of pid ?c2 d pc]] r by simp
  show ?thesis
  proof (cases r)
    case (Inl e)
    then show ?thesis using r a3 by (simp add: switchNetwork_def Let_def)
  next
    case (Inr u)
    let ?c4 = "publish NetworkDidChange c3"
    have a4: "advances pid c ?c4" using advances_trans [OF a3 advances_publish] .
    have "advances pid ?c4 (snd (lookupNetwork_begin d ?c4))"
      using advances_lookupNetwork_begin advances_less [OF a4 assms] by simp
    then have "advances pid c (snd (lookupNetwork_begin d ?c4))"
      using advances_trans [OF a4] by simp
    then show ?thesis using r Inr by (simp add: switchNetwork_def Let_def)
  qed
qed

lemma advances_setProviderConfig:
  "pid < nextProbe c \<Longrightarrow> advances pid c (snd (setProviderConfig d pc c))"
proof -
  assume a: "pid < nextProbe c"
  let ?c0 = "c\<lparr>previousProviderStore := providerStore c, providerStore := pc\<rparr>"
  have "advances pid c ?c0" by (rule advances_same) simp_all
  moreover have "advances pid ?c0 (snd (switchNetwork d pc ?c0))"
    using a by (intro advances_switchNetwork) simp
  ultimately show ?thesis
    unfolding setProviderConfig_def by (rule advances_trans)
qed

lemma advances_rollbackToPreviousProvider:
  "pid < nextProbe c \<Longrightarrow> advances pid c (snd (rollbackToPreviousProvider d c))"
proof -
  assume a: "pid < nextProbe c"
  let ?c0 = "c\<lparr>providerStore := previousProviderStore c\<rparr>"
  have "advances pid c ?c0" by (rule advances_same) simp_all
  moreover have "advances pid ?c0 (snd (switchNetwork d (previousProviderStore c) ?c0))"
    using a by (intro advances_switchNetwork) simp
  ultimately show ?thesis
    unfolding rollbackToPreviousProvider_def Let_def by (rule advances_trans)
qed

lemma advances_setActiveNetwork:
  "pid < nextProbe c \<Longrightarrow> advances pid c (snd (setActiveNetwork d i c))"
  using advances_setProviderConfig [of pid c d]
  by (auto simp: setActiveNetwork_def advances_refl
        split: option.splits prod.splits sum.splits if_splits)
     (metis snd_conv)+

lemma advances_setProviderType:
  "pid < nextProbe c \<Longrightarrow> advances pid c (snd (setProviderType d t c))"
  by (simp add: setProviderType_def advances_refl advances_setProviderConfig split: option.splits)

lemma advances_initializeProvider:
  assumes "pid < nextProbe c"
  shows "advances pid c (snd (initializeProvider d c))"
proof -
  obtain r c1 where r: "configureProvider d (providerStore c) c = (r, c1)"
    by (cases "configureProvider d (providerStore c) c")
  have a1: "advances pid c c1"
    using advances_configureProvider [of pid c d "providerStore c"] r by simp
  show ?thesis
  proof (cases r)
    case (Inl e)
    then show ?thesis using r a1 by (simp add: initializeProvider_def Let_def)
  next
    case (Inr u)
    have "advances pid c1 (snd (lookupNetwork_begin d c1))"
      using advances_lookupNetwork_begin advances_less [OF a1 assms] by simp
    then show ?thesis using r Inr advances_trans [OF a1]
      by (simp add: initializeProvider_def Let_def)
  qed
qed

lemma advances_publishInfuraStatus:
  "advances pid c (publishInfuraStatus b st c)"
  by (simp add: publishInfuraStatus_def advances_publish advances_refl)

lemma publishInfuraStatus_no_change:
  "\<exists>evs. published (publishInfuraStatus b st c) = published c @ evs
        \<and> NetworkDidChange \<notin> set evs \<and> probes (publishInfuraStatus b st c) = probes c
        \<and> nextProbe (publishInfuraStatus b st c) = nextProbe c"
  by (simp add: publishInfuraStatus_def publish_def Let_def)

lemma advances_lookupNetwork_resume:
  assumes "pid' \<noteq> pid"
  shows "advances pid c (lookupNetwork_resume d pid' out c)"
proof (cases "probes c pid'")
  case None
  then show ?thesis by (simp add: lookupNetwork_resume_def advances_refl)
next
  case (Some p)
  obtain nid sup st where pr: "probeResult d out = (nid, sup, st)"
    by (cases "probeResult d out") auto
  let ?c0 = "c\<lparr>probes := (probes c)(pid' := None)\<rparr>"
  have a0: "advances pid c ?c0" using assms by (intro advances_same) simp_all
  show ?thesis
  proof (cases "networkChanged p")
    case True
    then show ?thesis using Some pr a0 by (simp add: lookupNetwork_resume_def Let_def)
  next
    case False
    let ?c2 = "(if st = Available
                then updateEIP1559 sup (?c0\<lparr>networkStatusStore := st, networkIdStore := nid\<rparr>)
                else resetNetworkDetails (resetNetworkId (?c0\<lparr>networkStatusStore := st\<rparr>)))"
    have "advances pid ?c0 ?c2"
      by (intro advances_same)
         (simp_all add: updateEIP1559_def resetNetworkDetails_def resetNetworkId_def)
    then have "advances pid c (publishInfuraStatus (isInfura p) st ?c2)"
      using advances_trans [OF a0] advances_trans advances_publishInfuraStatus by blast
    then show ?thesis using Some pr False by (simp add: lookupNetwork_resume_def Let_def)
  qed
qed

lemma advances_getEIP1559Compatibility_begin:
  "advances pid c (snd (getEIP1559Compatibility_begin c))"
  by (rule advances_same)
     (simp_all add: getEIP1559Compatibility_begin_def split: option.splits)

lemma advances_getEIP1559Compatibility_resume:
  "advances pid c (snd (getEIP1559Compatibility_resume out c))"
  by (rule advances_same)
     (simp_all add: getEIP1559Compatibility_resume_def updateEIP1559_def Let_def
        split: block_outcome.splits)

lemma advances_removeNetworkConfiguration:
  "advances pid c (removeNetworkConfiguration i c)"
  by (rule advances_same) (simp_all add: removeNetworkConfiguration_def)

lemma writeNetworkConfiguration_frame:
  "published (snd (writeNetworkConfiguration d uuid rpcUrl ticker ref src inp c)) = published c"
  "probes (snd (writeNetworkConfiguration d uuid rpcUrl ticker ref src inp c)) = probes c"
  "nextProbe (snd (writeNetworkConfiguration d uuid rpcUrl ticker ref src inp c)) = nextProbe c"
  by (simp_all add: writeNetworkConfiguration_def trackMetaMetricsEvent_def Let_def)

lemma advances_upsertNetworkConfiguration:
  assumes "pid < nextProbe c"
  shows "advances pid c (snd (upsertNetworkConfiguration d uuid inp args c))"
proof -
  have w: "advances pid c (snd (writeNetworkConfiguration d uuid rpcUrl ticker ref src inp c))"
    for rpcUrl ticker ref src
    by (rule advances_same) (simp_all add: writeNetworkConfiguration_frame)
  have sa: "advances pid c
      (snd (setActiveNetwork d i (snd (writeNetworkConfiguration d uuid rpcUrl ticker ref src inp c))))"
    for rpcUrl ticker ref src i
    by (rule advances_trans [OF w advances_setActiveNetwork])
       (simp add: writeNetworkConfiguration_frame assms)
  show ?thesis
    unfolding upsertNetworkConfiguration_def
    by (auto simp: advances_refl split: option.splits prod.splits sum.splits)
       (metis w sa snd_conv)+
qed

lemma advances_exec:
  "pid < nextProbe c \<Longrightarrow> \<not> settles pid a \<Longrightarrow> advances pid c (exec d a c)"
  by (cases a)
     (simp_all add: advances_initializeProvider advances_lookupNetwork_begin
       advances_lookupNetwork_resume advances_getEIP1559Compatibility_begin
       advances_getEIP1559Compatibility_resume advances_setActiveNetwork
       advances_setProviderType advances_setProviderConfig resetConnection_def
       advances_rollbackToPreviousProvider advances_upsertNetworkConfiguration
       advances_removeNetworkConfiguration)

lemma advances_run:
  "pid < nextProbe c \<Longrightarrow> \<not> list_ex (settles pid) as \<Longrightarrow> advances pid c (run d as c)"
proof (induction as arbitrary: c)
  case Nil
  then show ?case by (simp add: advances_refl)
next
  case (Cons a as)
  have 1: "advances pid c (exec d a c)" using Cons.prems by (simp add: advances_exec)
  have "advances pid (exec d a c) (run d as (exec d a c))"
    using Cons.IH [of "exec d a c"] Cons.prems advances_less [OF 1] by simp
  then show ?case using advances_trans [OF 1] by simp
qed

lemma lookupNetwork_begin_pending:
  assumes "lookupNetwork_begin d c0 = (Some pid, c1)"
  shows "pid < nextProbe c1"
    and "probes c1 pid = Some \<lparr>isInfura = isInfuraProviderType d (pc_type (providerStore c0)),
                                networkChanged = False, listening = True\<rparr>"
  using assms
  by (auto simp: lookupNetwork_begin_def Let_def split: option.splits if_splits)

lemma pending_run_state:
  assumes "lookupNetwork_begin d c0 = (Some pid, c1)"
    and "\<not> list_ex (settles pid) as"
  shows "probes (run d as c1) pid =
           Some \<lparr>isInfura = isInfuraProviderType d (pc_type (providerStore c0)),
                 networkChanged = (NetworkDidChange \<in> set (publishedSince c1 (run d as c1))),
                 listening = (NetworkDidChange \<notin> set (publishedSince c1 (run d as c1)))\<rparr>"
proof -
  have "advances pid c1 (run d as c1)"
    using advances_run lookupNetwork_begin_pending(1) [OF assms(1)] assms(2) by simp
  then obtain evs where e: "published (run d as c1) = published c1 @ evs"
    "probes (run d as c1) pid = (if NetworkDidChange \<in> set evs
                          then map_option listener (probes c1 pid) else probes c1 pid)"
    by (auto simp: advances_def)
  have "publishedSince c1 (run d as c1) = evs" using e(1) by (simp add: publishedSince_def)
  then show ?thesis using e(2) lookupNetwork_begin_pending(2) [OF assms(1)]
    by (simp add: listener_def)
qed

lemma publishInfuraStatus_frame [simp]:
  "networkStatusStore (publishInfuraStatus b st c) = networkStatusStore c"
  "networkIdStore (publishInfuraStatus b st c) = networkIdStore c"
  "networkDetails (publishInfuraStatus b st c) = networkDetails c"
  "probes (publishInfuraStatus b st c) = probes c"
  by (simp_all add: publishInfuraStatus_def publish_def Let_def)

lemma publishInfuraStatus_published:
  "published (publishInfuraStatus b st c) =
     published c @ (if b then (case st of Available \<Rightarrow> [InfuraIsUnblocked]
                                | Blocked \<Rightarrow> [InfuraIsBlocked] | _ \<Rightarrow> [])
                    else [InfuraIsUnblocked])"
  by (cases st) (simp_all add: publishInfuraStatus_def)

lemma lookupNetwork_resume_fresh:
  assumes "probes c pid = Some p" and "\<not> networkChanged p"
  shows "networkStatusStore (lookupNetwork_resume d pid out c) = snd (snd (probeResult d out))"
    and "published (lookupNetwork_resume d pid out c) =
           published c @ (if isInfura p
                          then (case snd (snd (probeResult d out)) of
                                  Available \<Rightarrow> [InfuraIsUnblocked]
                                | Blocked \<Rightarrow> [InfuraIsBlocked] | _ \<Rightarrow> [])
                          else [InfuraIsUnblocked])"
    and "probes (lookupNetwork_resume d pid out c) pid = None"
proof -
  obtain nid sup st where pr: "probeResult d out = (nid, sup, st)"
    by (cases "probeResult d out") auto
  show "networkStatusStore (lookupNetwork_resume d pid out c) = snd (snd (probeResult d out))"
    using assms pr
    by (simp add: lookupNetwork_resume_def Let_def updateEIP1559_def resetNetworkDetails_def
        resetNetworkId_def)
  show "published (lookupNetwork_resume d pid out c) =
           published c @ (if isInfura p
                          then (case snd (snd (probeResult d out)) of
                                  Available \<Rightarrow> [InfuraIsUnblocked]
                                | Blocked \<Rightarrow> [InfuraIsBlocked] | _ \<Rightarrow> [])
                          else [InfuraIsUnblocked])"
    using assms pr
    by (simp add: lookupNetwork_resume_def Let_def updateEIP1559_def resetNetworkDetails_def
        resetNetworkId_def publishInfuraStatus_published)
  show "probes (lookupNetwork_resume d pid out c) pid = None"
    using assms pr
    by (simp add: lookupNetwork_resume_def Let_def updateEIP1559_def resetNetworkDetails_def
        resetNetworkId_def)
qed

lemma lookupNetwork_resume_stale:
  assumes "probes c pid = Some p" and "networkChanged p"
  shows "lookupNetwork_resume d pid out c = c\<lparr>probes := (probes c)(pid := None)\<rparr>"
  using assms by (simp add: lookupNetwork_resume_def Let_def split: prod.splits)


lemma configureProvider_stores [simp]:
  "providerStore (snd (configureProvider d pc c)) = providerStore c"
  "previousProviderStore (snd (configureProvider d pc c)) = previousProviderStore c"
  by (simp_all add: configureProvider_def configureInfuraProvider_def
      configureStandardProvider_def setProviderAndBlockTracker_def Let_def split: option.splits)

lemma lookupNetwork_begin_stores [simp]:
  "providerStore (snd (lookupNetwork_begin d c)) = providerStore c"
  "previousProviderStore (snd (lookupNetwork_begin d c)) = previousProviderStore c"
  by (simp_all add: lookupNetwork_begin_def Let_def resetNetworkId_def resetNetworkStatus_def
      resetNetworkDetails_def split: option.splits)

lemma switchNetwork_stores [simp]:
  "providerStore (snd (switchNetwork d pc c)) = providerStore c"
  "previousProviderStore (snd (switchNetwork d pc c)) = previousProviderStore c"
proof -
  let ?c2 = "resetNetworkDetails (resetNetworkStatus (resetNetworkId (publish NetworkWillChange c)))"
  have a: "providerStore ?c2 = providerStore c" "previousProviderStore ?c2 = previousProviderStore c"
    by (simp_all add: resetNetworkId_def resetNetworkStatus_def resetNetworkDetails_def)
  obtain r c3 where r: "configureProvider d pc ?c2 = (r, c3)" by (cases "configureProvider d pc ?c2")
  have b: "providerStore c3 = providerStore c" "previousProviderStore c3 = previousProviderStore c"
    using configureProvider_stores [of d pc ?c2] a r by simp_all
  show "providerStore (snd (switchNetwork d pc c)) = providerStore c"
    "previousProviderStore (snd (switchNetwork d pc c)) = previousProviderStore c"
    using r b by (simp_all add: switchNetwork_def Let_def split: sum.splits)
qed

section \<open>The examples, evaluated\<close>

lemma constructor_fresh:
  "constructor exampleDeps
     \<lparr>st_provider = None, st_networkDetails = None, st_networkConfigurations = None\<rparr> ''K''
   = Inr freshController"
  by (simp add: constructor_def exampleDeps_def freshController_def
      buildDefaultProviderConfigState_def buildDefaultNetworkIdState_def
      buildDefaultNetworkStatusState_def buildDefaultNetworkDetailsState_def
      buildDefaultNetworkConfigurationsState_def Let_def)

lemma constructor_restored:
  "constructor exampleDeps
     \<lparr>st_provider = None,
      st_networkDetails = Some \<lparr>EIPS = (\<lambda>n. None)(1559 \<mapsto> True), otherProperties = (\<lambda>k. None)\<rparr>,
      st_networkConfigurations = None\<rparr> ''K''
   = Inr restoredController"
  by (simp add: constructor_def exampleDeps_def freshController_def restoredController_def
      buildDefaultProviderConfigState_def buildDefaultNetworkIdState_def
      buildDefaultNetworkStatusState_def buildDefaultNetworkDetailsState_def
      buildDefaultNetworkConfigurationsState_def Let_def)

lemma configureProvider_fresh:
  "configureProvider exampleDeps (providerStore freshController) freshController
     = (Inr (), installedController)"
  by (simp add: configureProvider_def exampleDeps_def freshController_def
      installedController_def isInfuraProviderType_def configureInfuraProvider_def
      setProviderAndBlockTracker_def createNetworkClient_def)

lemma lookupNetwork_begin_installed:
  "lookupNetwork_begin exampleDeps installedController = (Some 0, pendingController)"
  by (simp add: lookupNetwork_begin_def installedController_def freshController_def
      pendingController_def getProviderAndBlockTracker_def falsy_def Let_def
      exampleDeps_def isInfuraProviderType_def)

lemma initializeProvider_fresh:
  "initializeProvider exampleDeps freshController = (Inr (), pendingController)"
  by (simp add: initializeProvider_def Let_def configureProvider_fresh
      lookupNetwork_begin_installed)

lemma pending_then_getEIP1559Compatibility:
  "published (run exampleDeps [GetEIP1559Compatibility] pendingController) = []"
  by (simp add: getEIP1559Compatibility_begin_def pendingController_def
      installedController_def freshController_def getProviderAndBlockTracker_def)

lemma pending_then_setProviderType:
  "published (run exampleDeps [SetProviderType ''goerli''] pendingController)
     = [NetworkWillChange, NetworkDidChange]"
proof -
  have "published (snd (setProviderConfig exampleDeps pc pendingController))
          = [NetworkWillChange, NetworkDidChange]"
    if "pc_type pc = ''goerli''" for pc
    using that
    by (simp add: setProviderConfig_def switchNetwork_def configureProvider_def
        exampleDeps_def isInfuraProviderType_def Let_def
        lookupNetwork_begin_def split: option.splits prod.splits,
        simp add: configureInfuraProvider_def setProviderAndBlockTracker_def
        resetNetworkId_def resetNetworkStatus_def resetNetworkDetails_def
        pendingController_def installedController_def freshController_def)
  then show ?thesis
    by (simp add: setProviderType_def NETWORK_TYPES_RPC_def isInfuraProviderType_def
        exampleDeps_def)
qed

section \<open>The probe and its events\<close>

text \<open>
  Claim C1. Take a run of \<open>lookupNetwork\<close> that issued its requests (\<open>pid\<close>, begun
  in state \<open>c0\<close>), any actions \<open>as\<close> between its \<open>await\<close> and its continuation
  that publish no \<open>NetworkDidChange\<close> (its flag \<open>networkChanged\<close> is still unset), and
  any outcome of its requests. The events that the continuation publishes are: when
  the provider type of \<open>c0\<close> is a built-in Infura type, \<open>InfuraIsUnblocked\<close> if the
  status it stores is \<open>Available\<close>, \<open>InfuraIsBlocked\<close> if that status is
  \<open>Blocked\<close>, and none otherwise; when the type is not built-in, \<open>InfuraIsUnblocked\<close>
  whatever the status.
\<close>

theorem lookupNetwork_infura_events:
  assumes "lookupNetwork_begin d c0 = (Some pid, c1)"
    and "\<not> list_ex (settles pid) as"
    and "NetworkDidChange \<notin> set (publishedSince c1 (run d as c1))"
  shows "publishedSince (run d as c1) (lookupNetwork_resume d pid out (run d as c1)) =
           (if isInfuraProviderType d (pc_type (providerStore c0))
            then (case networkStatusStore (lookupNetwork_resume d pid out (run d as c1)) of
                    Available \<Rightarrow> [InfuraIsUnblocked]
                  | Blocked \<Rightarrow> [InfuraIsBlocked]
                  | _ \<Rightarrow> [])
            else [InfuraIsUnblocked])"
proof -
  let ?p = "\<lparr>isInfura = isInfuraProviderType d (pc_type (providerStore c0)),
             networkChanged = False, listening = True\<rparr>"
  have p: "probes (run d as c1) pid = Some ?p"
    using pending_run_state [OF assms(1,2)] assms(3) by simp
  show ?thesis
    using lookupNetwork_resume_fresh(1,2) [OF p, of d out]
    by (simp add: publishedSince_def)
qed

theorem lookupNetwork_infura_events_witness:
  "lookupNetwork_begin exampleDeps installedController = (Some 0, pendingController)
   \<and> \<not> list_ex (settles 0) [GetEIP1559Compatibility]
   \<and> NetworkDidChange \<notin> set (publishedSince pendingController
         (run exampleDeps [GetEIP1559Compatibility] pendingController))
   \<and> isInfuraProviderType exampleDeps (pc_type (providerStore installedController))
   \<and> networkStatusStore
         (lookupNetwork_resume exampleDeps 0
            (Resolved ''1'' (Some \<lparr>baseFeePerGas = Some ''0x1''\<rparr>))
            (run exampleDeps [GetEIP1559Compatibility] pendingController)) = Available
   \<and> publishedSince
       (run exampleDeps [GetEIP1559Compatibility] pendingController)
       (lookupNetwork_resume exampleDeps 0
          (Resolved ''1'' (Some \<lparr>baseFeePerGas = Some ''0x1''\<rparr>))
          (run exampleDeps [GetEIP1559Compatibility] pendingController))
     = [InfuraIsUnblocked]"
proof -
  have h1: "lookupNetwork_begin exampleDeps installedController = (Some 0, pendingController)"
    by (rule lookupNetwork_begin_installed)
  have h2: "\<not> list_ex (settles 0) [GetEIP1559Compatibility]" by simp
  have h3: "NetworkDidChange \<notin> set (publishedSince pendingController
         (run exampleDeps [GetEIP1559Compatibility] pendingController))"
    unfolding publishedSince_def pending_then_getEIP1559Compatibility by simp
  have t: "isInfuraProviderType exampleDeps (pc_type (providerStore installedController))"
    by (simp add: isInfuraProviderType_def exampleDeps_def installedController_def
        freshController_def)
  have p: "probes (run exampleDeps [GetEIP1559Compatibility] pendingController) 0
             = Some \<lparr>isInfura = True, networkChanged = False, listening = True\<rparr>"
    using pending_run_state [OF h1 h2] h3 t by simp
  have s: "networkStatusStore
         (lookupNetwork_resume exampleDeps 0
            (Resolved ''1'' (Some \<lparr>baseFeePerGas = Some ''0x1''\<rparr>))
            (run exampleDeps [GetEIP1559Compatibility] pendingController)) = Available"
    using lookupNetwork_resume_fresh(1) [OF p]
    by (simp add: probeResult_def assertNetworkId_def isDigit_def)
  show ?thesis
    using lookupNetwork_infura_events [OF h1 h2 h3,
        of "Resolved ''1'' (Some \<lparr>baseFeePerGas = Some ''0x1''\<rparr>)"] h1 h2 h3 t s
    by simp
qed

text \<open>
  Claim C2. Take a run of \<open>lookupNetwork\<close> that issued its requests (\<open>pid\<close>, which
  left the state \<open>c1\<close> at its \<open>await\<close>) and any actions \<open>as\<close> between its
  \<open>await\<close> and its continuation, among which \<open>NetworkDidChange\<close> is published.
  Whatever its requests settled to, the continuation leaves the stores of the network
  status, the network id and the network details as they are and publishes nothing.
  (The snapshot of the provider configuration and the \<open>await\<close> belong to one
  uninterrupted piece of the call, so an event published after the snapshot is
  published after the \<open>await\<close>.)
\<close>

theorem lookupNetwork_stale_discarded:
  assumes "lookupNetwork_begin d c0 = (Some pid, c1)"
    and "\<not> list_ex (settles pid) as"
    and "NetworkDidChange \<in> set (publishedSince c1 (run d as c1))"
  shows "networkStatusStore (lookupNetwork_resume d pid out (run d as c1))
           = networkStatusStore (run d as c1)
       \<and> networkIdStore (lookupNetwork_resume d pid out (run d as c1))
           = networkIdStore (run d as c1)
       \<and> networkDetails (lookupNetwork_resume d pid out (run d as c1))
           = networkDetails (run d as c1)
       \<and> published (lookupNetwork_resume d pid out (run d as c1))
           = published (run d as c1)"
proof -
  let ?p = "\<lparr>isInfura = isInfuraProviderType d (pc_type (providerStore c0)),
             networkChanged = True, listening = False\<rparr>"
  have p: "probes (run d as c1) pid = Some ?p"
    using pending_run_state [OF assms(1,2)] assms(3) by simp
  show ?thesis
    using lookupNetwork_resume_stale [OF p, of d out] by simp
qed

theorem lookupNetwork_stale_discarded_witness:
  "lookupNetwork_begin exampleDeps installedController = (Some 0, pendingController)
   \<and> \<not> list_ex (settles 0) [SetProviderType ''goerli'']
   \<and> NetworkDidChange \<in> set (publishedSince pendingController
         (run exampleDeps [SetProviderType ''goerli''] pendingController))
   \<and> networkStatusStore (lookupNetwork_resume exampleDeps 0
          (Resolved ''1'' (Some \<lparr>baseFeePerGas = Some ''0x1''\<rparr>))
          (run exampleDeps [SetProviderType ''goerli''] pendingController))
       = networkStatusStore (run exampleDeps [SetProviderType ''goerli''] pendingController)
   \<and> published (lookupNetwork_resume exampleDeps 0
          (Resolved ''1'' (Some \<lparr>baseFeePerGas = Some ''0x1''\<rparr>))
          (run exampleDeps [SetProviderType ''goerli''] pendingController))
       = [NetworkWillChange, NetworkDidChange]"
proof -
  have h1: "lookupNetwork_begin exampleDeps installedController = (Some 0, pendingController)"
    by (rule lookupNetwork_begin_installed)
  have h2: "\<not> list_ex (settles 0) [SetProviderType ''goerli'']" by simp
  have h3: "NetworkDidChange \<in> set (publishedSince pendingController
         (run exampleDeps [SetProviderType ''goerli''] pendingController))"
    unfolding publishedSince_def pending_then_setProviderType
    by (simp add: pendingController_def installedController_def freshController_def)
  show ?thesis
    using lookupNetwork_stale_discarded [OF h1 h2 h3,
        of "Resolved ''1'' (Some \<lparr>baseFeePerGas = Some ''0x1''\<rparr>)"] h1 h2 h3
      pending_then_setProviderType
    by simp
qed

lemma classifyError_cases:
  "classifyError d e =
     (if isErrorWithCode e \<and> isErrorWithMessage e
      then (if messageIsBlocked d e then Blocked
            else if error_code e = Some (NumberCode (errorCodes_rpc_internal d)) then Unknown
            else Unavailable)
      else Unknown)"
  by (simp add: classifyError_def messageIsBlocked_def isPlainObject_def json_property_def
      Let_def split: option.splits json.splits)

lemma probeResult_status:
  "snd (snd (probeResult d (Resolved v b))) =
     (if assertNetworkId v then Available else snd (snd (probeResult d (Rejected networkId_AssertionError))))"
  "snd (snd (probeResult d (Rejected e))) = classifyError d e"
  by (simp_all add: probeResult_def)

lemma lookupNetwork_begin_issues:
  assumes "providerProxy c0 \<noteq> None" and "\<not> falsy (pc_chainId (providerStore c0))"
  shows "lookupNetwork_begin d c0 = (Some (nextProbe c0), snd (lookupNetwork_begin d c0))"
  using assms
  by (auto simp: lookupNetwork_begin_def getProviderAndBlockTracker_def Let_def)

lemma lookupNetwork_resume_ends:
  "probes (lookupNetwork_resume d pid out c) pid = None"
proof (cases "probes c pid")
  case None
  then show ?thesis by (simp add: lookupNetwork_resume_def)
next
  case (Some p)
  show ?thesis
  proof (cases "networkChanged p")
    case True
    then show ?thesis using lookupNetwork_resume_stale [OF Some] by simp
  next
    case False
    then show ?thesis using lookupNetwork_resume_fresh(3) [OF Some] by simp
  qed
qed

text \<open>
  Claim C3, as amended. A call of \<open>lookupNetwork\<close> in a state with a provider proxy
  and a configured chain id issues its requests and waits (it is the run \<open>pid\<close>);
  whatever the requests settle to and whatever actions \<open>as\<close> come in between, its
  continuation ends the run, and neither part throws (neither has an error result).
  If no \<open>NetworkDidChange\<close> was published in between, the status \<open>st\<close> it stores is:
  \<open>Available\<close> when both requests succeeded and \<open>net_version\<close> returned a non-empty
  string of decimal digits; when they succeeded with any other string, the status of
  the assertion error that \<open>assertNetworkId\<close> then throws, which is \<open>Unavailable\<close>
  since \<open>JSON.parse\<close> rejects the message of that error; for a rejection with an
  error that carries both a code and a message, \<open>Blocked\<close> when the message parses to
  a plain object whose \<open>error\<close> is the blocked sentinel, else \<open>Unknown\<close> when the
  code is the RPC-internal one, else \<open>Unavailable\<close>; and \<open>Unknown\<close> for a rejection
  with anything that lacks a code or a message.
\<close>

theorem lookupNetwork_classifies:
  assumes "providerProxy c0 \<noteq> None"
    and "\<not> falsy (pc_chainId (providerStore c0))"
    and "pid = nextProbe c0"
    and "c1 = snd (lookupNetwork_begin d c0)"
    and "\<not> list_ex (settles pid) as"
    and "st = networkStatusStore (lookupNetwork_resume d pid out (run d as c1))"
  shows "fst (lookupNetwork_begin d c0) = Some pid
       \<and> probes (lookupNetwork_resume d pid out (run d as c1)) pid = None
       \<and> (NetworkDidChange \<notin> set (publishedSince c1 (run d as c1)) \<longrightarrow>
            (\<forall>v b. out = Resolved v b \<and> v \<noteq> [] \<and> (\<forall>ch \<in> set v. ch \<in> set ''0123456789'')
                   \<longrightarrow> st = Available)
          \<and> (\<forall>v b. out = Resolved v b \<and> \<not> (v \<noteq> [] \<and> (\<forall>ch \<in> set v. ch \<in> set ''0123456789''))
                   \<longrightarrow> st = networkStatusStore (lookupNetwork_resume d pid
                                (Rejected networkId_AssertionError) (run d as c1))
                     \<and> (JSON_parse d ''value is not a number'' = None \<longrightarrow> st = Unavailable))
          \<and> (\<forall>e. out = Rejected e \<and> isErrorWithCode e \<and> isErrorWithMessage e
                   \<and> messageIsBlocked d e \<longrightarrow> st = Blocked)
          \<and> (\<forall>e. out = Rejected e \<and> isErrorWithCode e \<and> isErrorWithMessage e
                   \<and> \<not> messageIsBlocked d e
                   \<and> error_code e = Some (NumberCode (errorCodes_rpc_internal d))
                   \<longrightarrow> st = Unknown)
          \<and> (\<forall>e. out = Rejected e \<and> \<not> (isErrorWithCode e \<and> isErrorWithMessage e)
                   \<longrightarrow> st = Unknown)
          \<and> (\<forall>e. out = Rejected e \<and> isErrorWithCode e \<and> isErrorWithMessage e
                   \<and> \<not> messageIsBlocked d e
                   \<and> error_code e \<noteq> Some (NumberCode (errorCodes_rpc_internal d))
                   \<longrightarrow> st = Unavailable))"
proof -
  have b: "lookupNetwork_begin d c0 = (Some pid, c1)"
    using lookupNetwork_begin_issues [OF assms(1,2)] assms(3,4) by simp
  have 1: "fst (lookupNetwork_begin d c0) = Some pid" using b by simp
  have 2: "probes (lookupNetwork_resume d pid out (run d as c1)) pid = None"
    by (rule lookupNetwork_resume_ends)
  have 3: "st = snd (snd (probeResult d out))"
    and 4: "networkStatusStore (lookupNetwork_resume d pid
                                (Rejected networkId_AssertionError) (run d as c1))
             = snd (snd (probeResult d (Rejected networkId_AssertionError)))"
    if n: "NetworkDidChange \<notin> set (publishedSince c1 (run d as c1))"
  proof -
    let ?p = "\<lparr>isInfura = isInfuraProviderType d (pc_type (providerStore c0)),
               networkChanged = False, listening = True\<rparr>"
    have p: "probes (run d as c1) pid = Some ?p"
      using pending_run_state [OF b assms(5)] n by simp
    show "st = snd (snd (probeResult d out))"
      using lookupNetwork_resume_fresh(1) [OF p] assms(6) by simp
    show "networkStatusStore (lookupNetwork_resume d pid
                                (Rejected networkId_AssertionError) (run d as c1))
             = snd (snd (probeResult d (Rejected networkId_AssertionError)))"
      using lookupNetwork_resume_fresh(1) [OF p] by simp
  qed
  have a: "assertNetworkId v = (v \<noteq> [] \<and> (\<forall>ch \<in> set v. ch \<in> set ''0123456789''))" for v
    by (auto simp: assertNetworkId_def isDigit_def list_all_iff)
  have 5: "st = Available"
    if "NetworkDidChange \<notin> set (publishedSince c1 (run d as c1))"
      and "out = Resolved v b \<and> v \<noteq> [] \<and> (\<forall>ch \<in> set v. ch \<in> set ''0123456789'')" for v b
  proof -
    have "assertNetworkId v" and "out = Resolved v b" using that(2) a [of v] by blast+
    then show ?thesis using 3 [OF that(1)] by (simp add: probeResult_status)
  qed
  have u: "classifyError d networkId_AssertionError = Unavailable"
    if "JSON_parse d ''value is not a number'' = None"
    using that
    by (simp add: classifyError_cases messageIsBlocked_def error_message_def error_code_def
        networkId_AssertionError_def isErrorWithCode_def isErrorWithMessage_def)
  have 6: "st = networkStatusStore (lookupNetwork_resume d pid
                                (Rejected networkId_AssertionError) (run d as c1))
           \<and> (JSON_parse d ''value is not a number'' = None \<longrightarrow> st = Unavailable)"
    if "NetworkDidChange \<notin> set (publishedSince c1 (run d as c1))"
      and "out = Resolved v b \<and> \<not> (v \<noteq> [] \<and> (\<forall>ch \<in> set v. ch \<in> set ''0123456789''))" for v b
  proof -
    have "\<not> assertNetworkId v" and "out = Resolved v b" using that(2) a [of v] by blast+
    then have "st = snd (snd (probeResult d (Rejected networkId_AssertionError)))"
      using 3 [OF that(1)] by (simp add: probeResult_status)
    then show ?thesis using 4 [OF that(1)] u by (simp add: probeResult_status)
  qed
  have 7: "st = classifyError d e"
    if "NetworkDidChange \<notin> set (publishedSince c1 (run d as c1))" and "out = Rejected e" for e
    using 3 [OF that(1)] that(2) by (simp add: probeResult_status)
  show ?thesis
    apply (intro conjI impI allI)
           apply (rule 1)
          apply (rule 2)
          apply (erule (1) 5)
         apply (erule (1) 6 [THEN conjunct1])
        apply (erule (2) 6 [THEN conjunct2, rule_format])
       apply (simp add: 7 classifyError_cases)
      apply (simp add: 7 classifyError_cases)
     apply (auto simp add: 7 classifyError_cases)
    done
qed

theorem lookupNetwork_classifies_witness:
  "networkStatusStore (lookupNetwork_resume exampleDeps 0
      (Rejected (ErrorObject (Some (NumberCode (- 32603))) (Some blockedMessage)))
      (run exampleDeps [GetEIP1559Compatibility] pendingController)) = Blocked
   \<and> networkStatusStore (lookupNetwork_resume exampleDeps 0
      (Rejected (ErrorObject (Some (NumberCode (- 32603))) (Some ''boom'')))
      (run exampleDeps [GetEIP1559Compatibility] pendingController)) = Unknown
   \<and> networkStatusStore (lookupNetwork_resume exampleDeps 0
      (Rejected (ErrorObject (Some (NumberCode 429)) (Some ''boom'')))
      (run exampleDeps [GetEIP1559Compatibility] pendingController)) = Unavailable
   \<and> networkStatusStore (lookupNetwork_resume exampleDeps 0
      (Rejected Primitive)
      (run exampleDeps [GetEIP1559Compatibility] pendingController)) = Unknown
   \<and> networkStatusStore (lookupNetwork_resume exampleDeps 0
      (Resolved ''1'' None)
      (run exampleDeps [GetEIP1559Compatibility] pendingController)) = Available
   \<and> networkStatusStore (lookupNetwork_resume exampleDeps 0
      (Resolved ''0x1'' None)
      (run exampleDeps [GetEIP1559Compatibility] pendingController)) = Unavailable"
proof -
  have h1: "providerProxy installedController \<noteq> None"
    by (simp add: installedController_def)
  have h2: "\<not> falsy (pc_chainId (providerStore installedController))"
    by (simp add: installedController_def freshController_def falsy_def)
  have h3: "0 = nextProbe installedController"
    by (simp add: installedController_def freshController_def)
  have h4: "pendingController = snd (lookupNetwork_begin exampleDeps installedController)"
    by (simp add: lookupNetwork_begin_installed)
  have h5: "\<not> list_ex (settles 0) [GetEIP1559Compatibility]" by simp
  have h6: "NetworkDidChange \<notin> set (publishedSince pendingController
         (run exampleDeps [GetEIP1559Compatibility] pendingController))"
    unfolding publishedSince_def pending_then_getEIP1559Compatibility by simp
  note t = lookupNetwork_classifies [OF h1 h2 h3 h4 h5 refl]
  have b: "messageIsBlocked exampleDeps (ErrorObject c (Some blockedMessage))" for c
    by (simp add: messageIsBlocked_def error_message_def exampleDeps_def)
  have n: "\<not> messageIsBlocked exampleDeps (ErrorObject c (Some ''boom''))" for c
    by (simp add: messageIsBlocked_def error_message_def exampleDeps_def blockedMessage_def)
  have i: "errorCodes_rpc_internal exampleDeps = - 32603" by (simp add: exampleDeps_def)
  have j: "JSON_parse exampleDeps ''value is not a number'' = None"
    by (simp add: exampleDeps_def blockedMessage_def)
  show ?thesis
    using t [of "Rejected (ErrorObject (Some (NumberCode (- 32603))) (Some blockedMessage))"]
      t [of "Rejected (ErrorObject (Some (NumberCode (- 32603))) (Some ''boom''))"]
      t [of "Rejected (ErrorObject (Some (NumberCode 429)) (Some ''boom''))"]
      t [of "Rejected Primitive"]
      t [of "Resolved ''1'' None"]
      t [of "Resolved ''0x1'' None"]
      h6 b n i j
    by (auto simp add: isErrorWithCode_def isErrorWithMessage_def error_code_def)
qed

text \<open>
  Claim C3 as stated fails: it makes the status \<open>Blocked\<close> whenever the message of the
  error parses to the blocked body. An error object with that message and no \<open>code\<close>
  property does not pass the guard \<open>isErrorWithCode(error) && isErrorWithMessage(error)\<close>,
  and the run stores \<open>Unknown\<close>.
\<close>

theorem lookupNetwork_blocked_message_without_code_counterexample:
  "lookupNetwork_begin exampleDeps installedController = (Some 0, pendingController)
   \<and> messageIsBlocked exampleDeps (ErrorObject None (Some blockedMessage))
   \<and> networkStatusStore (lookupNetwork_resume exampleDeps 0
        (Rejected (ErrorObject None (Some blockedMessage))) pendingController) = Unknown"
proof -
  have p: "probes pendingController 0
             = Some \<lparr>isInfura = True, networkChanged = False, listening = True\<rparr>"
    by (simp add: pendingController_def)
  have "networkStatusStore (lookupNetwork_resume exampleDeps 0
        (Rejected (ErrorObject None (Some blockedMessage))) pendingController) = Unknown"
    using lookupNetwork_resume_fresh(1) [OF p]
    by (simp add: probeResult_def classifyError_def isErrorWithCode_def)
  moreover have "messageIsBlocked exampleDeps (ErrorObject None (Some blockedMessage))"
    by (simp add: messageIsBlocked_def error_message_def exampleDeps_def)
  ultimately show ?thesis using lookupNetwork_begin_installed by simp
qed

text \<open>
  Claim C4, as amended. A call of \<open>lookupNetwork\<close> without a provider proxy returns
  at once and changes nothing: no store is reset, no request is issued, no event is
  published. A call with a provider proxy but an absent or empty chain id resets the
  network id, the network status and the network details to their defaults and
  returns; that is its only effect, so it issues no request and publishes no event.
\<close>

theorem lookupNetwork_without_provider_or_chainId:
  "(providerProxy c = None \<longrightarrow> lookupNetwork_begin d c = (None, c))
   \<and> (providerProxy c \<noteq> None \<and> falsy (pc_chainId (providerStore c)) \<longrightarrow>
        lookupNetwork_begin d c =
          (None, c\<lparr>networkIdStore := None, networkStatusStore := Unknown,
                    networkDetails := buildDefaultNetworkDetailsState\<rparr>))"
  by (auto simp: lookupNetwork_begin_def getProviderAndBlockTracker_def Let_def
      resetNetworkId_def resetNetworkStatus_def resetNetworkDetails_def
      buildDefaultNetworkIdState_def buildDefaultNetworkStatusState_def)

theorem lookupNetwork_without_provider_or_chainId_witness:
  "providerProxy restoredController = None
   \<and> lookupNetwork_begin exampleDeps restoredController = (None, restoredController)
   \<and> providerProxy (installedController\<lparr>providerStore :=
         (providerStore installedController)\<lparr>pc_chainId := None\<rparr>,
         networkStatusStore := Available, networkIdStore := Some ''1''\<rparr>) \<noteq> None
   \<and> falsy None
   \<and> networkStatusStore (snd (lookupNetwork_begin exampleDeps
        (installedController\<lparr>providerStore :=
           (providerStore installedController)\<lparr>pc_chainId := None\<rparr>,
           networkStatusStore := Available, networkIdStore := Some ''1''\<rparr>))) = Unknown
   \<and> networkIdStore (snd (lookupNetwork_begin exampleDeps
        (installedController\<lparr>providerStore :=
           (providerStore installedController)\<lparr>pc_chainId := None\<rparr>,
           networkStatusStore := Available, networkIdStore := Some ''1''\<rparr>))) = None"
proof -
  have h1: "providerProxy restoredController = None"
    by (simp add: restoredController_def freshController_def)
  have h2: "providerProxy (installedController\<lparr>providerStore :=
         (providerStore installedController)\<lparr>pc_chainId := None\<rparr>,
         networkStatusStore := Available, networkIdStore := Some ''1''\<rparr>) \<noteq> None"
    by (simp add: installedController_def)
  have h3: "falsy None" by (simp add: falsy_def)
  show ?thesis
    using lookupNetwork_without_provider_or_chainId [of restoredController exampleDeps]
      lookupNetwork_without_provider_or_chainId [of "installedController\<lparr>providerStore :=
         (providerStore installedController)\<lparr>pc_chainId := None\<rparr>,
         networkStatusStore := Available, networkIdStore := Some ''1''\<rparr>" exampleDeps]
      h1 h2 h3
    by simp
qed

text \<open>
  Claim C4 as stated fails where the provider proxy is null: the guard for the missing
  provider returns before any reset. A controller constructed from restored network
  details that record EIP-1559 support has no provider proxy yet; \<open>lookupNetwork\<close>
  leaves those details in place, and they are not the default ones.
\<close>

theorem lookupNetwork_missing_provider_counterexample:
  "constructor exampleDeps
     \<lparr>st_provider = None,
      st_networkDetails = Some \<lparr>EIPS = (\<lambda>n. None)(1559 \<mapsto> True), otherProperties = (\<lambda>k. None)\<rparr>,
      st_networkConfigurations = None\<rparr> ''K''
     = Inr restoredController
   \<and> providerProxy restoredController = None
   \<and> EIPS (networkDetails (snd (lookupNetwork_begin exampleDeps restoredController))) 1559
       = Some True
   \<and> EIPS buildDefaultNetworkDetailsState 1559 = None"
  by (simp add: constructor_restored lookupNetwork_begin_def getProviderAndBlockTracker_def
      Let_def restoredController_def freshController_def buildDefaultNetworkDetailsState_def)

section \<open>The EIP-1559 probe\<close>

text \<open>
  Claim C5. \<open>getEIP1559Compatibility\<close> returns the stored \<open>EIPS[1559]\<close> when it is
  defined, with the state as it was (no request issued, nothing written); returns
  \<open>false\<close> with the state as it was when the slot is undefined and there is no
  provider proxy; and otherwise issues \<open>eth_getBlockByNumber\<close> and waits. Once the
  latest block has arrived, in whatever state \<open>c'\<close> the controller then is, it
  returns whether the block exists and has a \<open>baseFeePerGas\<close>, and its only write is
  that boolean into \<open>EIPS[1559]\<close>: every other slot of \<open>EIPS\<close> keeps its value.
\<close>

theorem getEIP1559Compatibility_memoizes:
  "(EIPS (networkDetails c) 1559 = Some v \<longrightarrow> getEIP1559Compatibility_begin c = (Some v, c))
   \<and> (EIPS (networkDetails c) 1559 = None \<and> providerProxy c = None \<longrightarrow>
        getEIP1559Compatibility_begin c = (Some False, c))
   \<and> (EIPS (networkDetails c) 1559 = None \<and> providerProxy c \<noteq> None \<longrightarrow>
        getEIP1559Compatibility_begin c
          = (None, c\<lparr>requests := requests c @ [eth_getBlockByNumber]\<rparr>))
   \<and> getEIP1559Compatibility_resume (BlockResolved b) c' =
        (Inr (\<exists>blk fee. b = Some blk \<and> baseFeePerGas blk = Some fee),
         c'\<lparr>networkDetails := (networkDetails c')
              \<lparr>EIPS := (EIPS (networkDetails c'))
                 (1559 \<mapsto> (\<exists>blk fee. b = Some blk \<and> baseFeePerGas blk = Some fee))\<rparr>\<rparr>)
   \<and> (\<forall>n. n \<noteq> 1559 \<longrightarrow>
         EIPS (networkDetails (snd (getEIP1559Compatibility_resume (BlockResolved b) c'))) n
           = EIPS (networkDetails c') n)"
  by (auto simp: getEIP1559Compatibility_begin_def getEIP1559Compatibility_resume_def
      getProviderAndBlockTracker_def updateEIP1559_def determineEIP1559Compatibility_def
      Let_def split: option.splits)

theorem getEIP1559Compatibility_memoizes_witness:
  "getEIP1559Compatibility_begin restoredController = (Some True, restoredController)
   \<and> getEIP1559Compatibility_begin freshController = (Some False, freshController)
   \<and> getEIP1559Compatibility_begin installedController
       = (None, installedController\<lparr>requests := [eth_getBlockByNumber]\<rparr>)
   \<and> fst (getEIP1559Compatibility_resume
            (BlockResolved (Some \<lparr>baseFeePerGas = Some ''0x1''\<rparr>)) installedController)
       = Inr True
   \<and> EIPS (networkDetails (snd (getEIP1559Compatibility_resume
            (BlockResolved (Some \<lparr>baseFeePerGas = Some ''0x1''\<rparr>)) installedController))) 1559
       = Some True"
  using getEIP1559Compatibility_memoizes [of restoredController True]
    getEIP1559Compatibility_memoizes [of freshController]
    getEIP1559Compatibility_memoizes [of installedController _
      "Some \<lparr>baseFeePerGas = Some ''0x1''\<rparr>" installedController]
  by (simp add: restoredController_def freshController_def installedController_def)

section \<open>Switching and rolling back\<close>

text \<open>
  Claim C8. For every provider configuration \<open>pc\<close> and every state of the
  controller, \<open>_setProviderConfig(pc)\<close> followed by \<open>rollbackToPreviousProvider()\<close>
  leaves in \<open>providerStore\<close> the value it held before the switch (whether or not
  either call throws on its way).
\<close>

theorem rollback_after_switch_restores_providerStore:
  "providerStore (snd (rollbackToPreviousProvider d (snd (setProviderConfig d pc c))))
     = providerStore c"
  by (simp add: rollbackToPreviousProvider_def setProviderConfig_def Let_def)

text \<open>
  Claim C10. For a provider configuration whose type is not a built-in Infura type and
  either is not \<open>rpc\<close> or comes with an absent or empty \<open>rpcUrl\<close>, \<open>_switchNetwork\<close>
  throws the error of \<open>_configureProvider\<close> after it has published
  \<open>NetworkWillChange\<close> and reset the network id, the network status and the network
  details to their defaults: these are the only changes to the state, so
  \<open>NetworkDidChange\<close> is not published, no \<open>lookupNetwork\<close> is started, and the
  provider, the block tracker and their proxies are the ones installed before.
\<close>

theorem switchNetwork_unconfigurable_not_atomic:
  assumes "\<not> isInfuraProviderType d (pc_type pc)"
    and "pc_type pc = NETWORK_TYPES_RPC \<longrightarrow> falsy (pc_rpcUrl pc)"
  shows "switchNetwork d pc c =
      (Inl (UnknownProviderType (pc_type pc)),
       c\<lparr>networkIdStore := None, networkStatusStore := Unknown,
         networkDetails := buildDefaultNetworkDetailsState,
         published := published c @ [NetworkWillChange]\<rparr>)"
  using assms
  by (simp add: switchNetwork_def configureProvider_def Let_def publish_def
      resetNetworkId_def resetNetworkStatus_def resetNetworkDetails_def
      buildDefaultNetworkIdState_def buildDefaultNetworkStatusState_def)

theorem switchNetwork_unconfigurable_not_atomic_witness:
  "\<not> isInfuraProviderType exampleDeps ''rpc''
   \<and> falsy (Some [])
   \<and> fst (switchNetwork exampleDeps
        \<lparr>pc_type = ''rpc'', pc_chainId = Some ''0x5'', pc_rpcUrl = Some [],
         pc_ticker = Some ''T'', pc_nickname = None, pc_rpcPrefs = None, pc_id = None\<rparr>
        pendingController) = Inl (UnknownProviderType ''rpc'')
   \<and> published (snd (switchNetwork exampleDeps
        \<lparr>pc_type = ''rpc'', pc_chainId = Some ''0x5'', pc_rpcUrl = Some [],
         pc_ticker = Some ''T'', pc_nickname = None, pc_rpcPrefs = None, pc_id = None\<rparr>
        pendingController)) = [NetworkWillChange]
   \<and> provider (snd (switchNetwork exampleDeps
        \<lparr>pc_type = ''rpc'', pc_chainId = Some ''0x5'', pc_rpcUrl = Some [],
         pc_ticker = Some ''T'', pc_nickname = None, pc_rpcPrefs = None, pc_id = None\<rparr>
        pendingController)) = Some (Provider (InfuraClient ''mainnet'' ''K''))"
proof -
  have h1: "\<not> isInfuraProviderType exampleDeps ''rpc''"
    by (simp add: isInfuraProviderType_def exampleDeps_def)
  have h2: "falsy (Some [])" by (simp add: falsy_def)
  show ?thesis
    using switchNetwork_unconfigurable_not_atomic [of exampleDeps
        "\<lparr>pc_type = ''rpc'', pc_chainId = Some ''0x5'', pc_rpcUrl = Some [],
          pc_ticker = Some ''T'', pc_nickname = None, pc_rpcPrefs = None, pc_id = None\<rparr>"
        pendingController] h1 h2
    by (simp add: pendingController_def installedController_def freshController_def)
qed

section \<open>Validation\<close>

lemma configureProvider_keeps [simp]:
  "networkConfigurationsStore (snd (configureProvider d pc c)) = networkConfigurationsStore c"
  "tracked (snd (configureProvider d pc c)) = tracked c"
  by (simp_all add: configureProvider_def configureInfuraProvider_def
      configureStandardProvider_def setProviderAndBlockTracker_def Let_def split: option.splits)

lemma lookupNetwork_begin_keeps [simp]:
  "networkConfigurationsStore (snd (lookupNetwork_begin d c)) = networkConfigurationsStore c"
  "tracked (snd (lookupNetwork_begin d c)) = tracked c"
  by (simp_all add: lookupNetwork_begin_def Let_def resetNetworkId_def resetNetworkStatus_def
      resetNetworkDetails_def split: option.splits)

lemma switchNetwork_keeps [simp]:
  "networkConfigurationsStore (snd (switchNetwork d pc c)) = networkConfigurationsStore c"
  "tracked (snd (switchNetwork d pc c)) = tracked c"
proof -
  let ?c2 = "resetNetworkDetails (resetNetworkStatus (resetNetworkId (publish NetworkWillChange c)))"
  have a: "networkConfigurationsStore ?c2 = networkConfigurationsStore c" "tracked ?c2 = tracked c"
    by (simp_all add: resetNetworkId_def resetNetworkStatus_def resetNetworkDetails_def)
  obtain r c3 where r: "configureProvider d pc ?c2 = (r, c3)" by (cases "configureProvider d pc ?c2")
  have b: "networkConfigurationsStore c3 = networkConfigurationsStore c" "tracked c3 = tracked c"
    using configureProvider_keeps [of d pc ?c2] a r by simp_all
  show "networkConfigurationsStore (snd (switchNetwork d pc c)) = networkConfigurationsStore c"
    "tracked (snd (switchNetwork d pc c)) = tracked c"
    using r b by (simp_all add: switchNetwork_def Let_def split: sum.splits)
qed

lemma setActiveNetwork_keeps [simp]:
  "networkConfigurationsStore (snd (setActiveNetwork d i c)) = networkConfigurationsStore c"
  "tracked (snd (setActiveNetwork d i c)) = tracked c"
proof -
  have k: "networkConfigurationsStore (snd (setProviderConfig d pc c)) = networkConfigurationsStore c"
    "tracked (snd (setProviderConfig d pc c)) = tracked c" for pc
    by (simp_all add: setProviderConfig_def)
  show "networkConfigurationsStore (snd (setActiveNetwork d i c)) = networkConfigurationsStore c"
    using k(1)
    by (auto simp: setActiveNetwork_def split: option.splits prod.splits sum.splits if_splits)
       (metis snd_conv)+
  show "tracked (snd (setActiveNetwork d i c)) = tracked c"
    using k(2)
    by (auto simp: setActiveNetwork_def split: option.splits prod.splits sum.splits if_splits)
       (metis snd_conv)+
qed

lemma switchNetwork_succeeds:
  assumes "isInfuraProviderType d (pc_type pc)
           \<or> (pc_type pc = NETWORK_TYPES_RPC \<and> \<not> falsy (pc_rpcUrl pc))"
  shows "fst (switchNetwork d pc c) = Inr ()"
  using assms
  by (auto simp: switchNetwork_def configureProvider_def Let_def split: prod.splits sum.splits)

lemma setActiveNetwork_succeeds:
  assumes "map_of (networkConfigurationsStore c) i = Some nc" and "nc_rpcUrl nc \<noteq> []"
  shows "fst (setActiveNetwork d i c) = Inr (Some (nc_rpcUrl nc))"
proof -
  let ?pc = "\<lparr>pc_type = NETWORK_TYPES_RPC, pc_chainId = Some (nc_chainId nc),
              pc_rpcUrl = Some (nc_rpcUrl nc), pc_ticker = Some (nc_ticker nc),
              pc_nickname = nc_nickname nc, pc_rpcPrefs = nc_rpcPrefs nc,
              pc_id = Some (nc_id nc)\<rparr>"
  have "fst (setProviderConfig d ?pc c) = Inr ()"
    unfolding setProviderConfig_def
    by (rule switchNetwork_succeeds) (simp add: falsy_def assms(2))
  then show ?thesis using assms(1)
    by (cases "setProviderConfig d ?pc c") (simp add: setActiveNetwork_def)
qed

text \<open>
  What the validation does achieve. \<open>upsertNetworkConfiguration\<close> throws, and leaves
  the whole state of the controller as it was, when the chain id is not a prefixed hex
  string or not a safe chain id, when the \<open>rpcUrl\<close> is missing or empty or is one
  for which \<open>new URL\<close> throws an error whose message includes \<open>Invalid URL\<close>, when
  the ticker is missing or empty, and when the referrer or the source is missing or
  empty. \<open>setProviderType\<close> does so for the type \<open>rpc\<close> and for a type that is not a
  built-in Infura type, \<open>setActiveNetwork\<close> for an id that is neither a key of the
  registry nor the name of a member of \<open>Object.prototype\<close>.
\<close>

lemma validation_failure_leaves_state:
  "(\<not> isPrefixedFormattedHexString d (in_chainId inp)
      \<or> \<not> isSafeChainId d (parseInt d (in_chainId inp) 16)
      \<or> falsy (in_rpcUrl inp)
      \<or> (\<exists>rpcUrl. in_rpcUrl inp = Some rpcUrl \<and> rejectsUrl d rpcUrl)
      \<or> falsy (in_ticker inp)
      \<or> falsy (referrer args) \<or> falsy (source args)
     \<longrightarrow> (\<exists>e. upsertNetworkConfiguration d uuid inp args c = (Inl e, c)))
   \<and> (t = NETWORK_TYPES_RPC \<or> \<not> isInfuraProviderType d t
     \<longrightarrow> (\<exists>e. setProviderType d t c = (Inl e, c)))
   \<and> (map_of (networkConfigurationsStore c) i = None \<and> i \<notin> set Object_prototype_members
     \<longrightarrow> setActiveNetwork d i c = (Inl (UnknownNetworkConfigurationId i), c))"
proof (intro conjI impI)
  assume "\<not> isPrefixedFormattedHexString d (in_chainId inp)
      \<or> \<not> isSafeChainId d (parseInt d (in_chainId inp) 16)
      \<or> falsy (in_rpcUrl inp)
      \<or> (\<exists>rpcUrl. in_rpcUrl inp = Some rpcUrl \<and> rejectsUrl d rpcUrl)
      \<or> falsy (in_ticker inp)
      \<or> falsy (referrer args) \<or> falsy (source args)"
  then show "\<exists>e. upsertNetworkConfiguration d uuid inp args c = (Inl e, c)"
    by (auto simp: upsertNetworkConfiguration_def falsy_def split: option.splits)
next
  assume "t = NETWORK_TYPES_RPC \<or> \<not> isInfuraProviderType d t"
  then show "\<exists>e. setProviderType d t c = (Inl e, c)"
    by (auto simp: setProviderType_def)
next
  assume "map_of (networkConfigurationsStore c) i = None \<and> i \<notin> set Object_prototype_members"
  then show "setActiveNetwork d i c = (Inl (UnknownNetworkConfigurationId i), c)"
    by (simp add: setActiveNetwork_def)
qed

lemma validation_failure_examples:
  "upsertNetworkConfiguration exampleDeps ''u1''
        \<lparr>in_rpcUrl = Some ''https://x/'', in_chainId = ''5'', in_ticker = Some ''T'',
         in_nickname = None, in_rpcPrefs = None\<rparr>
        \<lparr>setActive = True, referrer = Some ''metamask'', source = Some ''ui''\<rparr>
        pendingController = (Inl (InvalidChainIdHex ''5''), pendingController)
   \<and> upsertNetworkConfiguration exampleDeps ''u1''
        \<lparr>in_rpcUrl = Some ''not a url'', in_chainId = ''0x5'', in_ticker = Some ''T'',
         in_nickname = None, in_rpcPrefs = None\<rparr>
        \<lparr>setActive = True, referrer = Some ''metamask'', source = Some ''ui''\<rparr>
        pendingController = (Inl RpcUrlMustBeValid, pendingController)
   \<and> setProviderType exampleDeps ''rpc'' pendingController
        = (Inl SetProviderTypeRpc, pendingController)
   \<and> setProviderType exampleDeps ''ropsten'' pendingController
        = (Inl (UnknownInfuraProviderType ''ropsten''), pendingController)
   \<and> setActiveNetwork exampleDeps ''u1'' pendingController
        = (Inl (UnknownNetworkConfigurationId ''u1''), pendingController)"
proof -
  have h1: "\<not> isPrefixedFormattedHexString exampleDeps ''5''"
    by (simp add: exampleDeps_def)
  have h2: "rejectsUrl exampleDeps ''not a url''"
    by (simp add: rejectsUrl_def exampleDeps_def isErrorWithMessage_def error_message_def)
  have h3: "\<not> isInfuraProviderType exampleDeps ''ropsten''"
    by (simp add: isInfuraProviderType_def exampleDeps_def)
  have h4: "map_of (networkConfigurationsStore pendingController) ''u1'' = None"
    by (simp add: pendingController_def installedController_def freshController_def)
  have h5: "''u1'' \<notin> set Object_prototype_members"
    by (simp add: Object_prototype_members_def)
  have v: "isPrefixedFormattedHexString exampleDeps ''0x5''"
    "isSafeChainId exampleDeps (parseInt exampleDeps ''0x5'' 16)"
    by (simp_all add: exampleDeps_def hexDigit_def)
  show ?thesis
    using validation_failure_leaves_state [of exampleDeps
        "\<lparr>in_rpcUrl = Some ''https://x/'', in_chainId = ''5'', in_ticker = Some ''T'',
          in_nickname = None, in_rpcPrefs = None\<rparr>"
        "\<lparr>setActive = True, referrer = Some ''metamask'', source = Some ''ui''\<rparr>"
        "''u1''" pendingController "''rpc''" "''u1''"]
      validation_failure_leaves_state [of exampleDeps
        "\<lparr>in_rpcUrl = Some ''not a url'', in_chainId = ''0x5'', in_ticker = Some ''T'',
          in_nickname = None, in_rpcPrefs = None\<rparr>"
        "\<lparr>setActive = True, referrer = Some ''metamask'', source = Some ''ui''\<rparr>"
        "''u1''" pendingController "''ropsten''" "''u1''"]
      h1 h2 h3 h4 h5 v
    by (simp add: NETWORK_TYPES_RPC_def upsertNetworkConfiguration_def setProviderType_def
        isInfuraProviderType_def)
qed

text \<open>
  Claim C9 says that a call of \<open>setActiveNetwork\<close> with an unknown
  network-configuration id throws with every store left unchanged. The code does not
  do so for every unknown id. On the controller initialised on mainnet, with an empty
  registry, \<open>setActiveNetwork("constructor")\<close> reads the inherited member
  \<open>constructor\<close> of the registry object, so the guard that throws
  "does not match a configured networkConfiguration" is passed; the provider
  configuration \<open>{ type: "rpc" }\<close> is written to \<open>providerStore\<close>,
  \<open>NetworkWillChange\<close> is published, and only then \<open>_configureProvider\<close> throws.
\<close>

theorem setActiveNetwork_inherited_member_writes_stores:
  "map_of (networkConfigurationsStore pendingController) ''constructor'' = None
   \<and> setActiveNetwork exampleDeps ''constructor'' pendingController =
       (Inl (UnknownProviderType ''rpc''),
        pendingController
          \<lparr>providerStore :=
             \<lparr>pc_type = ''rpc'', pc_chainId = None, pc_rpcUrl = None, pc_ticker = None,
              pc_nickname = None, pc_rpcPrefs = None, pc_id = None\<rparr>,
           published := [NetworkWillChange]\<rparr>)
   \<and> pc_type (providerStore pendingController) = ''mainnet''"
proof -
  let ?pc = "\<lparr>pc_type = NETWORK_TYPES_RPC, pc_chainId = None, pc_rpcUrl = None,
              pc_ticker = None, pc_nickname = None, pc_rpcPrefs = None, pc_id = None\<rparr>"
  let ?c = "pendingController\<lparr>previousProviderStore := providerStore pendingController,
                               providerStore := ?pc\<rparr>"
  have r: "map_of (networkConfigurationsStore pendingController) ''constructor'' = None"
    by (simp add: pendingController_def installedController_def freshController_def)
  have m: "''constructor'' \<in> set Object_prototype_members"
    by (simp add: Object_prototype_members_def)
  have n: "\<not> isInfuraProviderType exampleDeps (pc_type ?pc)"
    by (simp add: isInfuraProviderType_def exampleDeps_def NETWORK_TYPES_RPC_def)
  have f: "pc_type ?pc = NETWORK_TYPES_RPC \<longrightarrow> falsy (pc_rpcUrl ?pc)"
    by (simp add: falsy_def)
  have s: "switchNetwork exampleDeps ?pc ?c =
      (Inl (UnknownProviderType (pc_type ?pc)),
       ?c\<lparr>networkIdStore := None, networkStatusStore := Unknown,
          networkDetails := buildDefaultNetworkDetailsState,
          published := published ?c @ [NetworkWillChange]\<rparr>)"
    using n f
    by (simp add: switchNetwork_def configureProvider_def Let_def publish_def
        resetNetworkId_def resetNetworkStatus_def resetNetworkDetails_def
        buildDefaultNetworkIdState_def buildDefaultNetworkStatusState_def)
  have "setActiveNetwork exampleDeps ''constructor'' pendingController =
      (Inl (UnknownProviderType (pc_type ?pc)),
       ?c\<lparr>networkIdStore := None, networkStatusStore := Unknown,
          networkDetails := buildDefaultNetworkDetailsState,
          published := published ?c @ [NetworkWillChange]\<rparr>)"
    using r m s by (simp add: setActiveNetwork_def setProviderConfig_def)
  then show ?thesis
    using r
    by (simp add: NETWORK_TYPES_RPC_def pendingController_def installedController_def
        freshController_def buildDefaultNetworkDetailsState_def)
qed

section \<open>Upserting network configurations\<close>

lemma length_filter_distinct_one:
  "x \<in> set xs \<Longrightarrow> distinct xs \<Longrightarrow> length (filter (\<lambda>y. y = x) xs) = 1"
proof (induction xs)
  case Nil
  then show ?case by simp
next
  case (Cons a xs)
  show ?case
  proof (cases "a = x")
    case True
    then have "filter (\<lambda>y. y = x) xs = []" using Cons.prems(2) by (auto simp: filter_empty_conv)
    then show ?thesis using True by simp
  next
    case False
    then show ?thesis using Cons by simp
  qed
qed

lemma set_update_subset: "set (AList.update k v al) \<subseteq> insert (k, v) (set al)"
  by (induction al) auto

lemma update_mem: "(k, v) \<in> set (AList.update k v al)"
  by (induction al) auto

lemma length_update_present:
  "k \<in> fst ` set al \<Longrightarrow> length (AList.update k v al) = length al"
  by (induction al) auto

lemma distinct_map_update:
  assumes "distinct (map fst al)" and "distinct (map g al)"
    and "\<forall>kv \<in> set al. g kv = g (k, v) \<longrightarrow> fst kv = k"
  shows "distinct (map g (AList.update k v al))"
  using assms
proof (induction al)
  case Nil
  then show ?case by simp
next
  case (Cons a al)
  obtain k' v' where a: "a = (k', v')" by (cases a)
  show ?case
  proof (cases "k' = k")
    case True
    have "g (k, v) \<notin> g ` set al"
    proof
      assume "g (k, v) \<in> g ` set al"
      then obtain kv where "kv \<in> set al" "g kv = g (k, v)" by auto
      then have "fst kv = k" using Cons.prems(3) by simp
      then show False using Cons.prems(1) a True \<open>kv \<in> set al\<close> by force
    qed
    then show ?thesis using Cons.prems a True by simp
  next
    case False
    have ih: "distinct (map g (AList.update k v al))"
      using Cons.IH Cons.prems by simp
    have "g (k', v') \<noteq> g (k, v)" using Cons.prems(3) a False by auto
    moreover have "g (k', v') \<notin> g ` set al" using Cons.prems(2) a by simp
    ultimately have "g (k', v') \<notin> g ` set (AList.update k v al)"
      using set_update_subset [of k v al] by auto
    then show ?thesis using ih a False by simp
  qed
qed

lemma findOld_None:
  "findOldNetworkConfigurationId d ncs rpcUrl = None \<longleftrightarrow> matching d rpcUrl ncs = []"
  by (auto simp: findOldNetworkConfigurationId_def matching_def lowerRpcUrl_def
      find_None_iff filter_empty_conv)

lemma findOld_Some:
  assumes "findOldNetworkConfigurationId d ncs rpcUrl = Some i"
  shows "\<exists>kv \<in> set (matching d rpcUrl ncs). nc_id (snd kv) = i"
proof -
  from assms obtain nc where
    f: "List.find (\<lambda>nc. toLowerCase d (nc_rpcUrl nc) = toLowerCase d rpcUrl) (map snd ncs) = Some nc"
    and i: "nc_id nc = i"
    by (auto simp: findOldNetworkConfigurationId_def)
  from f have "nc \<in> set (map snd ncs)" "toLowerCase d (nc_rpcUrl nc) = toLowerCase d rpcUrl"
    by (auto simp: find_Some_iff)
  then show ?thesis using i by (force simp: matching_def lowerRpcUrl_def)
qed

lemma wellFormed_unique:
  assumes "wellFormedRegistry d ncs" and "kv \<in> set ncs" and "kv' \<in> set ncs"
    and "lowerRpcUrl d kv = lowerRpcUrl d kv'"
  shows "kv = kv'"
  using assms by (auto simp: wellFormedRegistry_def distinct_map dest: inj_onD)

lemma findOld_wellFormed:
  assumes "wellFormedRegistry d ncs" and "kv \<in> set (matching d rpcUrl ncs)"
  shows "findOldNetworkConfigurationId d ncs rpcUrl = Some (fst kv)" and "fst kv \<noteq> []"
proof -
  have kv: "kv \<in> set ncs" "lowerRpcUrl d kv = toLowerCase d rpcUrl"
    using assms(2) by (auto simp: matching_def)
  have id: "nc_id (snd kv) = fst kv" "fst kv \<noteq> []"
    using assms(1) kv(1) by (auto simp: wellFormedRegistry_def keyedById_def list_all_iff)
  show "fst kv \<noteq> []" by (rule id(2))
  have "findOldNetworkConfigurationId d ncs rpcUrl \<noteq> None"
    using assms(2) by (auto simp: findOld_None)
  then obtain i where i: "findOldNetworkConfigurationId d ncs rpcUrl = Some i" by auto
  then obtain kv' where kv': "kv' \<in> set (matching d rpcUrl ncs)" "nc_id (snd kv') = i"
    using findOld_Some by blast
  then have "kv' \<in> set ncs" "lowerRpcUrl d kv' = lowerRpcUrl d kv"
    using kv(2) by (auto simp: matching_def)
  then have "kv' = kv" using wellFormed_unique [OF assms(1) _ kv(1)] by simp
  then show "findOldNetworkConfigurationId d ncs rpcUrl = Some (fst kv)"
    using i kv'(2) id(1) by simp
qed

lemma newNetworkConfigurationId_wellFormed:
  assumes "wellFormedRegistry d ncs"
  shows "newNetworkConfigurationId (findOldNetworkConfigurationId d ncs rpcUrl) uuid =
           (case matching d rpcUrl ncs of [] \<Rightarrow> uuid | kv # kvs \<Rightarrow> fst kv)"
proof (cases "matching d rpcUrl ncs")
  case Nil
  then show ?thesis
    using findOld_None [of d ncs rpcUrl] by (simp add: newNetworkConfigurationId_def)
next
  case (Cons kv kvs)
  then have m: "kv \<in> set (matching d rpcUrl ncs)" by simp
  show ?thesis
    using findOld_wellFormed [OF assms m] Cons by (simp add: newNetworkConfigurationId_def)
qed

lemma newNetworkConfigurationId_nonempty:
  assumes wf: "wellFormedRegistry d ncs" and u: "uuid \<noteq> []"
  shows "newNetworkConfigurationId (findOldNetworkConfigurationId d ncs rpcUrl) uuid \<noteq> []"
proof (cases "matching d rpcUrl ncs")
  case Nil
  then show ?thesis using u newNetworkConfigurationId_wellFormed [OF wf, of rpcUrl uuid] by simp
next
  case (Cons kv kvs)
  then have m: "kv \<in> set (matching d rpcUrl ncs)" by simp
  show ?thesis
    using findOld_wellFormed(2) [OF wf m] Cons
      newNetworkConfigurationId_wellFormed [OF wf, of rpcUrl uuid]
    by simp
qed

lemma wellFormedRegistry_update:
  assumes wf: "wellFormedRegistry d ncs"
    and i: "i = newNetworkConfigurationId (findOldNetworkConfigurationId d ncs rpcUrl) uuid"
    and ne: "i \<noteq> []"
    and e: "nc_id e = i" "nc_rpcUrl e = rpcUrl"
  shows "wellFormedRegistry d (AList.update i e ncs)"
proof -
  have 1: "distinct (map fst (AList.update i e ncs))"
    using wf by (simp add: wellFormedRegistry_def distinct_update)
  have 2: "keyedById (AList.update i e ncs)"
    using wf set_update_subset [of i e ncs] e(1) ne
    by (auto simp: wellFormedRegistry_def keyedById_def list_all_iff)
  have "\<forall>kv \<in> set ncs. lowerRpcUrl d kv = lowerRpcUrl d (i, e) \<longrightarrow> fst kv = i"
  proof (intro ballI impI)
    fix kv assume "kv \<in> set ncs" "lowerRpcUrl d kv = lowerRpcUrl d (i, e)"
    then have m: "kv \<in> set (matching d rpcUrl ncs)"
      using e(2) by (simp add: matching_def lowerRpcUrl_def)
    show "fst kv = i"
      using findOld_wellFormed [OF wf m] i by (simp add: newNetworkConfigurationId_def)
  qed
  then have 3: "distinct (map (lowerRpcUrl d) (AList.update i e ncs))"
    using wf by (intro distinct_map_update) (simp_all add: wellFormedRegistry_def)
  show ?thesis using 1 2 3 by (simp add: wellFormedRegistry_def)
qed

lemma writeNetworkConfiguration_registry:
  "networkConfigurationsStore (snd (writeNetworkConfiguration d uuid rpcUrl ticker ref src inp c))
     = AList.update (fst (writeNetworkConfiguration d uuid rpcUrl ticker ref src inp c))
         \<lparr>nc_id = fst (writeNetworkConfiguration d uuid rpcUrl ticker ref src inp c),
          nc_rpcUrl = rpcUrl, nc_chainId = in_chainId inp, nc_ticker = ticker,
          nc_nickname = in_nickname inp, nc_rpcPrefs = in_rpcPrefs inp\<rparr>
         (networkConfigurationsStore c)"
  "fst (writeNetworkConfiguration d uuid rpcUrl ticker ref src inp c)
     = newNetworkConfigurationId
         (findOldNetworkConfigurationId d (networkConfigurationsStore c) rpcUrl) uuid"
  by (simp_all add: writeNetworkConfiguration_def trackMetaMetricsEvent_def Let_def)

lemma writeNetworkConfiguration_tracked:
  assumes "\<forall>kv \<in> set (networkConfigurationsStore c). nc_id (snd kv) \<noteq> []"
  shows "tracked (snd (writeNetworkConfiguration d uuid rpcUrl ticker ref src inp c))
     = tracked c @
        (if matching d rpcUrl (networkConfigurationsStore c) = []
         then [\<lparr>event = ''Custom Network Added'',
                 category = MetaMetricsEventCategory_Network d,
                 referrer_url = ref,
                 properties_chain_id = in_chainId inp,
                 properties_symbol = ticker,
                 properties_source = src\<rparr>]
         else [])"
proof (cases "findOldNetworkConfigurationId d (networkConfigurationsStore c) rpcUrl")
  case None
  then show ?thesis
    using findOld_None [of d "networkConfigurationsStore c" rpcUrl]
    by (simp add: writeNetworkConfiguration_def trackMetaMetricsEvent_def Let_def falsy_def)
next
  case (Some i)
  then obtain kv where kv: "kv \<in> set (matching d rpcUrl (networkConfigurationsStore c))"
    "nc_id (snd kv) = i" using findOld_Some by blast
  from kv(1) have "kv \<in> set (networkConfigurationsStore c)" by (simp add: matching_def)
  then have "i \<noteq> []" using assms kv(2) by auto
  moreover have "matching d rpcUrl (networkConfigurationsStore c) \<noteq> []"
    using kv(1) by auto
  ultimately show ?thesis using Some
    by (simp add: writeNetworkConfiguration_def trackMetaMetricsEvent_def Let_def falsy_def)
qed

lemma upsertNetworkConfiguration_Inr:
  assumes "upsertNetworkConfiguration d uuid inp args c = (Inr i, c')"
  obtains rpcUrl ticker ref src where
    "in_rpcUrl inp = Some rpcUrl" "in_ticker inp = Some ticker"
    "referrer args = Some ref" "source args = Some src"
    "rpcUrl \<noteq> []" "ticker \<noteq> []" "ref \<noteq> []" "src \<noteq> []"
    "i = fst (writeNetworkConfiguration d uuid rpcUrl ticker ref src inp c)"
    "networkConfigurationsStore c'
       = networkConfigurationsStore (snd (writeNetworkConfiguration d uuid rpcUrl ticker ref src inp c))"
    "tracked c' = tracked (snd (writeNetworkConfiguration d uuid rpcUrl ticker ref src inp c))"
proof -
  from assms obtain rpcUrl ticker ref src where
    1: "in_rpcUrl inp = Some rpcUrl" "in_ticker inp = Some ticker"
    "referrer args = Some ref" "source args = Some src"
    "rpcUrl \<noteq> []" "ticker \<noteq> []" "ref \<noteq> []" "src \<noteq> []"
    by (auto simp: upsertNetworkConfiguration_def split: if_splits option.splits)
  obtain newId c2 where w: "writeNetworkConfiguration d uuid rpcUrl ticker ref src inp c = (newId, c2)"
    by (cases "writeNetworkConfiguration d uuid rpcUrl ticker ref src inp c")
  have "i = newId \<and> networkConfigurationsStore c' = networkConfigurationsStore c2
        \<and> tracked c' = tracked c2"
  proof (cases "setActive args")
    case False
    then show ?thesis using assms 1 w
      by (auto simp: upsertNetworkConfiguration_def split: if_splits)
  next
    case True
    obtain r c3 where s: "setActiveNetwork d newId c2 = (r, c3)"
      by (cases "setActiveNetwork d newId c2")
    have "networkConfigurationsStore c3 = networkConfigurationsStore c2" "tracked c3 = tracked c2"
      using setActiveNetwork_keeps [of d newId c2] s by simp_all
    then show ?thesis using assms 1 w s True
      by (auto simp: upsertNetworkConfiguration_def split: if_splits sum.splits)
  qed
  then show ?thesis using that [OF 1] w by simp
qed

lemma upsertNetworkConfiguration_succeeds:
  assumes "isPrefixedFormattedHexString d (in_chainId inp)"
    and "isSafeChainId d (parseInt d (in_chainId inp) 16)"
    and "in_rpcUrl inp = Some rpcUrl" and "rpcUrl \<noteq> []"
    and "referrer args = Some ref" and "ref \<noteq> []"
    and "source args = Some src" and "src \<noteq> []"
    and "\<not> rejectsUrl d rpcUrl"
    and "in_ticker inp = Some ticker" and "ticker \<noteq> []"
  shows "upsertNetworkConfiguration d uuid inp args c =
           (Inr (fst (writeNetworkConfiguration d uuid rpcUrl ticker ref src inp c)),
            snd (upsertNetworkConfiguration d uuid inp args c))"
proof -
  obtain newId c2 where w: "writeNetworkConfiguration d uuid rpcUrl ticker ref src inp c = (newId, c2)"
    by (cases "writeNetworkConfiguration d uuid rpcUrl ticker ref src inp c")
  let ?e = "\<lparr>nc_id = newId, nc_rpcUrl = rpcUrl, nc_chainId = in_chainId inp, nc_ticker = ticker,
             nc_nickname = in_nickname inp, nc_rpcPrefs = in_rpcPrefs inp\<rparr>"
  have "networkConfigurationsStore c2 = AList.update newId ?e (networkConfigurationsStore c)"
    using writeNetworkConfiguration_registry(1) [of d uuid rpcUrl ticker ref src inp c] w by simp
  then have "map_of (networkConfigurationsStore c2) newId = Some ?e"
    by (simp add: update_conv')
  then have "fst (setActiveNetwork d newId c2) = Inr (Some rpcUrl)"
    using setActiveNetwork_succeeds [of c2 newId ?e d] assms(4) by simp
  then obtain c3 where "setActiveNetwork d newId c2 = (Inr (Some rpcUrl), c3)"
    by (cases "setActiveNetwork d newId c2") simp
  then show ?thesis using assms w
    by (simp add: upsertNetworkConfiguration_def)
qed

text \<open>
  The test of the \<open>rpcUrl\<close> looks at the message of the error that \<open>new URL\<close>
  throws: an \<open>rpcUrl\<close> that the constructor rejects with any other message passes
  the validation, and the call succeeds (it writes the registry) when the other
  arguments are valid.
\<close>

lemma upsertNetworkConfiguration_accepts_other_URL_errors:
  assumes "new_URL d rpcUrl = Some e"
    and "\<not> string_includes (error_message e) ''Invalid URL''"
    and "isPrefixedFormattedHexString d (in_chainId inp)"
    and "isSafeChainId d (parseInt d (in_chainId inp) 16)"
    and "in_rpcUrl inp = Some rpcUrl" and "rpcUrl \<noteq> []"
    and "referrer args = Some ref" and "ref \<noteq> []"
    and "source args = Some src" and "src \<noteq> []"
    and "in_ticker inp = Some ticker" and "ticker \<noteq> []"
  shows "\<exists>i. fst (upsertNetworkConfiguration d uuid inp args c) = Inr i"
proof -
  have "\<not> rejectsUrl d rpcUrl" using assms(1,2) by (simp add: rejectsUrl_def)
  then show ?thesis
    using upsertNetworkConfiguration_succeeds [of d inp rpcUrl args ref src ticker uuid c] assms
    by (metis fst_conv)
qed

text \<open>
  Claim C7. A call of \<open>upsertNetworkConfiguration\<close> that succeeds, in a state whose
  registry entries have non-empty ids (they are uuids), adds to the calls of the
  \<open>trackEvent\<close> callback: nothing when an entry of the registry had the same \<open>rpcUrl\<close>
  up to letter case; otherwise exactly one call, with the event
  \<open>Custom Network Added\<close>, the category Network, the referrer as url, and the chain
  id, the ticker (as symbol) and the source as properties.
\<close>

theorem upsert_tracks_new_network_once:
  assumes "upsertNetworkConfiguration d uuid inp args c = (Inr i, c')"
    and "\<forall>kv \<in> set (networkConfigurationsStore c). nc_id (snd kv) \<noteq> []"
  shows "\<exists>rpcUrl ticker ref src.
           in_rpcUrl inp = Some rpcUrl \<and> in_ticker inp = Some ticker
         \<and> referrer args = Some ref \<and> source args = Some src
         \<and> tracked c' = tracked c @
             (if matching d rpcUrl (networkConfigurationsStore c) = []
              then [\<lparr>event = ''Custom Network Added'',
                      category = MetaMetricsEventCategory_Network d,
                      referrer_url = ref,
                      properties_chain_id = in_chainId inp,
                      properties_symbol = ticker,
                      properties_source = src\<rparr>]
              else [])"
proof -
  from assms(1) obtain rpcUrl ticker ref src where
    1: "in_rpcUrl inp = Some rpcUrl" "in_ticker inp = Some ticker"
       "referrer args = Some ref" "source args = Some src"
    and t: "tracked c' = tracked (snd (writeNetworkConfiguration d uuid rpcUrl ticker ref src inp c))"
    by (rule upsertNetworkConfiguration_Inr)
  show ?thesis
    using 1 t writeNetworkConfiguration_tracked [OF assms(2), of d uuid rpcUrl ticker ref src inp]
    by simp
qed


text \<open>
  Claim C6. In a state whose registry satisfies the invariants of the data model, take
  two successive calls of \<open>upsertNetworkConfiguration\<close> that both succeed, with
  \<open>rpcUrl\<close>s that are equal up to letter case (the first call may mint any non-empty
  uuid). Both return the same id; the second call does not change the size of the
  registry; after it exactly one entry of the registry has that \<open>rpcUrl\<close> up to
  letter case; and if an entry had it before the first call, the id returned is the id
  of that entry.
\<close>

theorem upsert_idempotent_on_rpcUrl:
  assumes wf: "wellFormedRegistry d (networkConfigurationsStore c)"
    and u: "uuid1 \<noteq> []"
    and c1: "upsertNetworkConfiguration d uuid1 inp1 args1 c = (Inr i1, c1)"
    and c2: "upsertNetworkConfiguration d uuid2 inp2 args2 c1 = (Inr i2, c2)"
    and r: "in_rpcUrl inp1 = Some rpcUrl1" "in_rpcUrl inp2 = Some rpcUrl2"
    and eq: "toLowerCase d rpcUrl1 = toLowerCase d rpcUrl2"
  shows "i2 = i1
       \<and> length (networkConfigurationsStore c2) = length (networkConfigurationsStore c1)
       \<and> length (matching d rpcUrl1 (networkConfigurationsStore c2)) = 1
       \<and> (\<forall>kv \<in> set (matching d rpcUrl1 (networkConfigurationsStore c)). i1 = nc_id (snd kv))"
proof -
  let ?r0 = "networkConfigurationsStore c"
  let ?r1 = "networkConfigurationsStore c1"
  let ?r2 = "networkConfigurationsStore c2"
  from c1 r(1) obtain t1 where
    i1: "i1 = newNetworkConfigurationId (findOldNetworkConfigurationId d ?r0 rpcUrl1) uuid1"
    and r1: "?r1 = AList.update i1
                \<lparr>nc_id = i1, nc_rpcUrl = rpcUrl1, nc_chainId = in_chainId inp1, nc_ticker = t1,
                 nc_nickname = in_nickname inp1, nc_rpcPrefs = in_rpcPrefs inp1\<rparr> ?r0"
    by (elim upsertNetworkConfiguration_Inr) (simp add: writeNetworkConfiguration_registry)
  let ?e1 = "\<lparr>nc_id = i1, nc_rpcUrl = rpcUrl1, nc_chainId = in_chainId inp1, nc_ticker = t1,
              nc_nickname = in_nickname inp1, nc_rpcPrefs = in_rpcPrefs inp1\<rparr>"
  have n1: "i1 \<noteq> []"
    unfolding i1 by (rule newNetworkConfigurationId_nonempty [OF wf u])
  have wf1: "wellFormedRegistry d ?r1"
    unfolding r1 by (rule wellFormedRegistry_update [OF wf i1 n1]) simp_all
  have m1: "(i1, ?e1) \<in> set (matching d rpcUrl2 ?r1)"
    unfolding r1 using update_mem [of i1 ?e1 ?r0] eq by (simp add: matching_def lowerRpcUrl_def)
  have f1: "findOldNetworkConfigurationId d ?r1 rpcUrl2 = Some i1" and ne1: "i1 \<noteq> []"
    using findOld_wellFormed [OF wf1 m1] by simp_all
  from c2 r(2) obtain t2 where
    i2: "i2 = newNetworkConfigurationId (findOldNetworkConfigurationId d ?r1 rpcUrl2) uuid2"
    and r2: "?r2 = AList.update i2
                \<lparr>nc_id = i2, nc_rpcUrl = rpcUrl2, nc_chainId = in_chainId inp2, nc_ticker = t2,
                 nc_nickname = in_nickname inp2, nc_rpcPrefs = in_rpcPrefs inp2\<rparr> ?r1"
    by (elim upsertNetworkConfiguration_Inr) (simp add: writeNetworkConfiguration_registry)
  let ?e2 = "\<lparr>nc_id = i2, nc_rpcUrl = rpcUrl2, nc_chainId = in_chainId inp2, nc_ticker = t2,
              nc_nickname = in_nickname inp2, nc_rpcPrefs = in_rpcPrefs inp2\<rparr>"
  have same: "i2 = i1" using i2 f1 ne1 by (simp add: newNetworkConfigurationId_def)
  have "i2 \<in> fst ` set ?r1" using m1 same by (force simp: matching_def)
  then have len: "length ?r2 = length ?r1"
    unfolding r2 by (rule length_update_present)
  have n2: "i2 \<noteq> []" using same n1 by simp
  have wf2: "wellFormedRegistry d ?r2"
    unfolding r2 by (rule wellFormedRegistry_update [OF wf1 i2 n2]) simp_all
  have m2: "(i2, ?e2) \<in> set (matching d rpcUrl1 ?r2)"
    unfolding r2 using update_mem [of i2 ?e2 ?r1] eq by (simp add: matching_def lowerRpcUrl_def)
  have d2: "distinct (map (lowerRpcUrl d) ?r2)" using wf2 by (simp add: wellFormedRegistry_def)
  have "length (matching d rpcUrl1 ?r2) = length (filter (\<lambda>x. x = toLowerCase d rpcUrl1) (map (lowerRpcUrl d) ?r2))"
    by (simp add: matching_def filter_map comp_def)
  also have "\<dots> = 1"
  proof -
    have "toLowerCase d rpcUrl1 \<in> set (map (lowerRpcUrl d) ?r2)"
      using m2 by (force simp: matching_def)
    then show ?thesis using d2 by (rule length_filter_distinct_one)
  qed
  finally have one: "length (matching d rpcUrl1 ?r2) = 1" .
  have pre: "\<forall>kv \<in> set (matching d rpcUrl1 ?r0). i1 = nc_id (snd kv)"
  proof
    fix kv assume m: "kv \<in> set (matching d rpcUrl1 ?r0)"
    have "findOldNetworkConfigurationId d ?r0 rpcUrl1 = Some (fst kv)" "fst kv \<noteq> []"
      using findOld_wellFormed [OF wf m] by simp_all
    then have "i1 = fst kv" using i1 by (simp add: newNetworkConfigurationId_def)
    moreover have "nc_id (snd kv) = fst kv"
      using wf m by (auto simp: wellFormedRegistry_def keyedById_def list_all_iff matching_def)
    ultimately show "i1 = nc_id (snd kv)" by simp
  qed
  show ?thesis using same len one pre by simp
qed


lemma lower_Foo:
  "toLowerCase exampleDeps ''https://Foo/'' = ''https://foo/''"
  "toLowerCase exampleDeps ''https://foo/'' = ''https://foo/''"
  by (simp_all add: exampleDeps_def asciiLower_def)

lemma chain_0x5:
  "isPrefixedFormattedHexString exampleDeps ''0x5''"
  "isSafeChainId exampleDeps (parseInt exampleDeps ''0x5'' 16)"
  by (simp_all add: exampleDeps_def hexDigit_def)

lemma accepts_https:
  "\<not> rejectsUrl exampleDeps ''https://Foo/''" "\<not> rejectsUrl exampleDeps ''https://foo/''"
  by (simp_all add: rejectsUrl_def exampleDeps_def)

lemma upsert_Foo:
  "upsertNetworkConfiguration exampleDeps ''id-1''
     \<lparr>in_rpcUrl = Some ''https://Foo/'', in_chainId = ''0x5'', in_ticker = Some ''T'',
      in_nickname = None, in_rpcPrefs = None\<rparr>
     \<lparr>setActive = True, referrer = Some ''metamask'', source = Some ''ui''\<rparr>
     pendingController = (Inr ''id-1'', fooController)"
  "networkConfigurationsStore fooController =
     [(''id-1'', \<lparr>nc_id = ''id-1'', nc_rpcUrl = ''https://Foo/'', nc_chainId = ''0x5'',
                  nc_ticker = ''T'', nc_nickname = None, nc_rpcPrefs = None\<rparr>)]"
proof -
  let ?inp = "\<lparr>in_rpcUrl = Some ''https://Foo/'', in_chainId = ''0x5'', in_ticker = Some ''T'',
      in_nickname = None, in_rpcPrefs = None\<rparr>"
  let ?args = "\<lparr>setActive = True, referrer = Some ''metamask'', source = Some ''ui''\<rparr>"
  have r: "networkConfigurationsStore pendingController = []"
    by (simp add: pendingController_def installedController_def freshController_def)
  have w: "fst (writeNetworkConfiguration exampleDeps ''id-1'' ''https://Foo/'' ''T''
              ''metamask'' ''ui'' ?inp pendingController) = ''id-1''"
    unfolding writeNetworkConfiguration_registry(2) r
    by (simp add: findOldNetworkConfigurationId_def newNetworkConfigurationId_def)
  have s: "upsertNetworkConfiguration exampleDeps ''id-1'' ?inp ?args pendingController
        = (Inr ''id-1'', fooController)"
    using upsertNetworkConfiguration_succeeds [of exampleDeps ?inp "''https://Foo/''" ?args
        "''metamask''" "''ui''" "''T''" "''id-1''" pendingController]
      chain_0x5 accepts_https w
    by (simp add: fooController_def)
  show "upsertNetworkConfiguration exampleDeps ''id-1'' ?inp ?args pendingController
        = (Inr ''id-1'', fooController)" by (rule s)
  show "networkConfigurationsStore fooController =
     [(''id-1'', \<lparr>nc_id = ''id-1'', nc_rpcUrl = ''https://Foo/'', nc_chainId = ''0x5'',
                  nc_ticker = ''T'', nc_nickname = None, nc_rpcPrefs = None\<rparr>)]"
    using s r w
    by (elim upsertNetworkConfiguration_Inr) (simp add: writeNetworkConfiguration_registry(1))
qed

lemma upsert_foo_again:
  "upsertNetworkConfiguration exampleDeps ''id-2''
     \<lparr>in_rpcUrl = Some ''https://foo/'', in_chainId = ''0x5'', in_ticker = Some ''T'',
      in_nickname = None, in_rpcPrefs = None\<rparr>
     \<lparr>setActive = False, referrer = Some ''metamask'', source = Some ''ui''\<rparr>
     fooController = (Inr ''id-1'', fooAgainController)"
proof -
  let ?inp = "\<lparr>in_rpcUrl = Some ''https://foo/'', in_chainId = ''0x5'', in_ticker = Some ''T'',
      in_nickname = None, in_rpcPrefs = None\<rparr>"
  let ?args = "\<lparr>setActive = False, referrer = Some ''metamask'', source = Some ''ui''\<rparr>"
  have w: "fst (writeNetworkConfiguration exampleDeps ''id-2'' ''https://foo/'' ''T''
              ''metamask'' ''ui'' ?inp fooController) = ''id-1''"
    unfolding writeNetworkConfiguration_registry(2) upsert_Foo(2)
    by (simp add: findOldNetworkConfigurationId_def newNetworkConfigurationId_def lower_Foo)
  show ?thesis
    using upsertNetworkConfiguration_succeeds [of exampleDeps ?inp "''https://foo/''" ?args
        "''metamask''" "''ui''" "''T''" "''id-2''" fooController]
      chain_0x5 accepts_https w
    by (simp add: fooAgainController_def)
qed

theorem upsert_tracks_new_network_once_witness:
  "tracked fooController =
     [\<lparr>event = ''Custom Network Added'', category = ''Network'',
       referrer_url = ''metamask'', properties_chain_id = ''0x5'',
       properties_symbol = ''T'', properties_source = ''ui''\<rparr>]
   \<and> tracked fooAgainController = tracked fooController"
proof -
  have r: "networkConfigurationsStore pendingController = []" "tracked pendingController = []"
    by (simp_all add: pendingController_def installedController_def freshController_def)
  have m: "matching exampleDeps ''https://foo/'' (networkConfigurationsStore fooController) \<noteq> []"
    by (simp add: upsert_Foo(2) matching_def lowerRpcUrl_def lower_Foo)
  have c: "MetaMetricsEventCategory_Network exampleDeps = ''Network''"
    by (simp add: exampleDeps_def)
  show ?thesis
    using upsert_tracks_new_network_once [OF upsert_Foo(1)]
      upsert_tracks_new_network_once [OF upsert_foo_again]
      r m c
    by (simp add: upsert_Foo(2) matching_def)
qed

theorem upsert_idempotent_on_rpcUrl_witness:
  "wellFormedRegistry exampleDeps (networkConfigurationsStore pendingController)
   \<and> upsertNetworkConfiguration exampleDeps ''id-1''
       \<lparr>in_rpcUrl = Some ''https://Foo/'', in_chainId = ''0x5'', in_ticker = Some ''T'',
        in_nickname = None, in_rpcPrefs = None\<rparr>
       \<lparr>setActive = True, referrer = Some ''metamask'', source = Some ''ui''\<rparr>
       pendingController = (Inr ''id-1'', fooController)
   \<and> upsertNetworkConfiguration exampleDeps ''id-2''
       \<lparr>in_rpcUrl = Some ''https://foo/'', in_chainId = ''0x5'', in_ticker = Some ''T'',
        in_nickname = None, in_rpcPrefs = None\<rparr>
       \<lparr>setActive = False, referrer = Some ''metamask'', source = Some ''ui''\<rparr>
       fooController = (Inr ''id-1'', fooAgainController)
   \<and> length (networkConfigurationsStore fooAgainController) = 1
   \<and> length (matching exampleDeps ''https://Foo/''
         (networkConfigurationsStore fooAgainController)) = 1"
proof -
  have wf: "wellFormedRegistry exampleDeps (networkConfigurationsStore pendingController)"
    by (simp add: pendingController_def installedController_def freshController_def
        wellFormedRegistry_def keyedById_def)
  have u: "''id-1'' \<noteq> []" by simp
  show ?thesis
    using upsert_idempotent_on_rpcUrl [OF wf u upsert_Foo(1) upsert_foo_again, of
        "''https://Foo/''" "''https://foo/''"] wf upsert_Foo upsert_foo_again lower_Foo
    by simp
qed

text \<open>
  The hypothesis on the registry in C6 and C7 holds in every state the controller can
  reach from a constructor call without restored network configurations: the
  invariants hold of the empty registry, and every action keeps them.
\<close>

lemma wellFormedRegistry_delete:
  assumes "wellFormedRegistry d ncs"
  shows "wellFormedRegistry d (AList.delete k ncs)"
proof -
  have "distinct (map (lowerRpcUrl d) (AList.delete k ncs))"
    using assms unfolding wellFormedRegistry_def AList.delete_eq
    by (simp add: distinct_map_filter)
  moreover have "keyedById (AList.delete k ncs)"
    using assms unfolding wellFormedRegistry_def AList.delete_eq keyedById_def
    by (auto simp: list_all_iff)
  ultimately show ?thesis
    using assms by (simp add: wellFormedRegistry_def distinct_delete)
qed

lemma registry_kept:
  "networkConfigurationsStore (snd (initializeProvider d c)) = networkConfigurationsStore c"
  "networkConfigurationsStore (lookupNetwork_resume d pid out c) = networkConfigurationsStore c"
  "networkConfigurationsStore (snd (getEIP1559Compatibility_begin c)) = networkConfigurationsStore c"
  "networkConfigurationsStore (snd (getEIP1559Compatibility_resume bo c)) = networkConfigurationsStore c"
  "networkConfigurationsStore (snd (setProviderType d t c)) = networkConfigurationsStore c"
  "networkConfigurationsStore (snd (resetConnection d c)) = networkConfigurationsStore c"
  "networkConfigurationsStore (snd (rollbackToPreviousProvider d c)) = networkConfigurationsStore c"
proof -
  show "networkConfigurationsStore (snd (initializeProvider d c)) = networkConfigurationsStore c"
  proof -
    obtain r c1 where r: "configureProvider d (providerStore c) c = (r, c1)"
      by (cases "configureProvider d (providerStore c) c")
    then have "networkConfigurationsStore c1 = networkConfigurationsStore c"
      using configureProvider_keeps(1) [of d "providerStore c" c] by simp
    then show ?thesis using r by (simp add: initializeProvider_def Let_def split: sum.splits)
  qed
  show "networkConfigurationsStore (lookupNetwork_resume d pid out c) = networkConfigurationsStore c"
    by (simp add: lookupNetwork_resume_def Let_def publishInfuraStatus_def updateEIP1559_def
        resetNetworkDetails_def resetNetworkId_def split: option.splits prod.splits)
  show "networkConfigurationsStore (snd (getEIP1559Compatibility_begin c)) = networkConfigurationsStore c"
    by (simp add: getEIP1559Compatibility_begin_def split: option.splits)
  show "networkConfigurationsStore (snd (getEIP1559Compatibility_resume bo c)) = networkConfigurationsStore c"
    by (simp add: getEIP1559Compatibility_resume_def updateEIP1559_def Let_def
        split: block_outcome.splits)
  show "networkConfigurationsStore (snd (setProviderType d t c)) = networkConfigurationsStore c"
    by (simp add: setProviderType_def setProviderConfig_def split: option.splits)
  show "networkConfigurationsStore (snd (resetConnection d c)) = networkConfigurationsStore c"
    by (simp add: resetConnection_def setProviderConfig_def)
  show "networkConfigurationsStore (snd (rollbackToPreviousProvider d c)) = networkConfigurationsStore c"
    by (simp add: rollbackToPreviousProvider_def Let_def)
qed

lemma upsertNetworkConfiguration_wellFormed:
  assumes wf: "wellFormedRegistry d (networkConfigurationsStore c)" and u: "uuid \<noteq> []"
  shows "wellFormedRegistry d
           (networkConfigurationsStore (snd (upsertNetworkConfiguration d uuid inp args c)))"
proof (cases "upsertNetworkConfiguration d uuid inp args c")
  case (Pair r c')
  show ?thesis
  proof (cases r)
    case (Inl e)
    have "networkConfigurationsStore c' = networkConfigurationsStore c"
    proof (rule ccontr)
      assume n: "networkConfigurationsStore c' \<noteq> networkConfigurationsStore c"
      have v: "\<not> (\<not> isPrefixedFormattedHexString d (in_chainId inp)
          \<or> \<not> isSafeChainId d (parseInt d (in_chainId inp) 16)
          \<or> falsy (in_rpcUrl inp)
          \<or> (\<exists>rpcUrl. in_rpcUrl inp = Some rpcUrl \<and> rejectsUrl d rpcUrl)
          \<or> falsy (in_ticker inp)
          \<or> falsy (referrer args) \<or> falsy (source args))"
      proof
        assume "\<not> isPrefixedFormattedHexString d (in_chainId inp)
          \<or> \<not> isSafeChainId d (parseInt d (in_chainId inp) 16)
          \<or> falsy (in_rpcUrl inp)
          \<or> (\<exists>rpcUrl. in_rpcUrl inp = Some rpcUrl \<and> rejectsUrl d rpcUrl)
          \<or> falsy (in_ticker inp)
          \<or> falsy (referrer args) \<or> falsy (source args)"
        then have "\<exists>e. upsertNetworkConfiguration d uuid inp args c = (Inl e, c)"
          by (auto simp: upsertNetworkConfiguration_def falsy_def split: option.splits)
        then show False using Pair n by auto
      qed
      then obtain rpcUrl ticker ref src where
        "in_rpcUrl inp = Some rpcUrl" "rpcUrl \<noteq> []" "referrer args = Some ref" "ref \<noteq> []"
        "source args = Some src" "src \<noteq> []" "in_ticker inp = Some ticker" "ticker \<noteq> []"
        "\<not> rejectsUrl d rpcUrl" "isPrefixedFormattedHexString d (in_chainId inp)"
        "isSafeChainId d (parseInt d (in_chainId inp) 16)"
        by (auto simp: falsy_def)
      then have "\<exists>i. fst (upsertNetworkConfiguration d uuid inp args c) = Inr i"
        using upsertNetworkConfiguration_succeeds [of d inp rpcUrl args ref src ticker uuid c]
        by (metis fst_conv)
      then show False using Pair Inl by simp
    qed
    then show ?thesis using wf Pair by simp
  next
    case (Inr i)
    from Pair Inr obtain rpcUrl ticker ref src where
      i: "i = fst (writeNetworkConfiguration d uuid rpcUrl ticker ref src inp c)"
      and r: "networkConfigurationsStore c'
       = networkConfigurationsStore (snd (writeNetworkConfiguration d uuid rpcUrl ticker ref src inp c))"
      by (auto elim: upsertNetworkConfiguration_Inr)
    let ?i = "newNetworkConfigurationId
         (findOldNetworkConfigurationId d (networkConfigurationsStore c) rpcUrl) uuid"
    have "wellFormedRegistry d (networkConfigurationsStore c')"
      unfolding r writeNetworkConfiguration_registry
      by (rule wellFormedRegistry_update [OF wf refl newNetworkConfigurationId_nonempty [OF wf u]])
         simp_all
    then show ?thesis using Pair by simp
  qed
qed

lemma wellFormedRegistry_exec:
  "wellFormedRegistry d (networkConfigurationsStore c) \<Longrightarrow> uuidSound a
     \<Longrightarrow> wellFormedRegistry d (networkConfigurationsStore (exec d a c))"
  by (cases a)
     (simp_all add: registry_kept upsertNetworkConfiguration_wellFormed
        wellFormedRegistry_delete removeNetworkConfiguration_def)

lemma wellFormedRegistry_run:
  "wellFormedRegistry d (networkConfigurationsStore c) \<Longrightarrow> list_all uuidSound as
     \<Longrightarrow> wellFormedRegistry d (networkConfigurationsStore (run d as c))"
  by (induction as arbitrary: c) (simp_all add: wellFormedRegistry_exec)

lemma wellFormedRegistry_reachable:
  assumes "constructor d state projectId = Inr c" and "st_networkConfigurations state = None"
    and "list_all uuidSound as"
  shows "wellFormedRegistry d (networkConfigurationsStore (run d as c))"
proof -
  have "networkConfigurationsStore c = []"
    using assms(1,2)
    by (auto simp: constructor_def Let_def buildDefaultNetworkConfigurationsState_def
        split: if_splits)
  then have "wellFormedRegistry d (networkConfigurationsStore c)"
    by (simp add: wellFormedRegistry_def keyedById_def)
  then show ?thesis using assms(3) by (rule wellFormedRegistry_run)
qed

end
